theory Spec2Isabelle
  imports Complex_Main "HOL-Library.AList"
begin

section \<open>JavaScript numbers\<close>

text \<open>
  The component computes with JavaScript numbers. Finite values are modelled as exact
  reals (rounding and overflow of doubles are not represented, nor is the sign of zero);
  the three non-finite values are kept, because \<open>ellapsed / scrollDuration\<close> produces
  them when the duration is zero and \<open>now - undefined\<close> is \<open>NaN\<close>.
\<close>

datatype jsnum = Fin real | PosInf | NegInf | NaN

fun js_neg :: "jsnum \<Rightarrow> jsnum" where
  "js_neg (Fin a) = Fin (- a)"
| "js_neg PosInf = NegInf"
| "js_neg NegInf = PosInf"
| "js_neg NaN = NaN"

fun js_add :: "jsnum \<Rightarrow> jsnum \<Rightarrow> jsnum" where
  "js_add NaN _ = NaN"
| "js_add _ NaN = NaN"
| "js_add (Fin a) (Fin b) = Fin (a + b)"
| "js_add PosInf NegInf = NaN"
| "js_add NegInf PosInf = NaN"
| "js_add PosInf _ = PosInf"
| "js_add _ PosInf = PosInf"
| "js_add NegInf _ = NegInf"
| "js_add _ NegInf = NegInf"

definition js_sub :: "jsnum \<Rightarrow> jsnum \<Rightarrow> jsnum" where
  "js_sub a b = js_add a (js_neg b)"

text \<open>The sign of an infinite product or quotient: \<open>pos\<close> tells whether it is positive.\<close>

definition js_inf :: "bool \<Rightarrow> jsnum" where
  "js_inf pos = (if pos then PosInf else NegInf)"

fun js_mul :: "jsnum \<Rightarrow> jsnum \<Rightarrow> jsnum" where
  "js_mul NaN _ = NaN"
| "js_mul _ NaN = NaN"
| "js_mul (Fin a) (Fin b) = Fin (a * b)"
| "js_mul (Fin a) PosInf = (if a = 0 then NaN else js_inf (0 < a))"
| "js_mul (Fin a) NegInf = (if a = 0 then NaN else js_inf (a < 0))"
| "js_mul PosInf (Fin b) = (if b = 0 then NaN else js_inf (0 < b))"
| "js_mul NegInf (Fin b) = (if b = 0 then NaN else js_inf (b < 0))"
| "js_mul PosInf PosInf = PosInf"
| "js_mul PosInf NegInf = NegInf"
| "js_mul NegInf PosInf = NegInf"
| "js_mul NegInf NegInf = PosInf"

text \<open>
  Division by a zero divisor gives an infinity of the dividend's sign (the divisor is
  taken as \<open>+0\<close>), and \<open>0 / 0\<close> is \<open>NaN\<close>; HOL's \<open>x / 0 = 0\<close> is never used.
\<close>

fun js_div :: "jsnum \<Rightarrow> jsnum \<Rightarrow> jsnum" where
  "js_div NaN _ = NaN"
| "js_div _ NaN = NaN"
| "js_div (Fin a) (Fin b) =
     (if b = 0 then (if a = 0 then NaN else js_inf (0 < a)) else Fin (a / b))"
| "js_div (Fin a) PosInf = Fin 0"
| "js_div (Fin a) NegInf = Fin 0"
| "js_div PosInf (Fin b) = js_inf (0 \<le> b)"
| "js_div NegInf (Fin b) = js_inf (b < 0)"
| "js_div PosInf PosInf = NaN"
| "js_div PosInf NegInf = NaN"
| "js_div NegInf PosInf = NaN"
| "js_div NegInf NegInf = NaN"

text \<open>\<open>Math.min(a, b)\<close>: \<open>NaN\<close> if either argument is.\<close>

fun js_min :: "jsnum \<Rightarrow> jsnum \<Rightarrow> jsnum" where
  "js_min NaN _ = NaN"
| "js_min _ NaN = NaN"
| "js_min NegInf _ = NegInf"
| "js_min _ NegInf = NegInf"
| "js_min PosInf b = b"
| "js_min a PosInf = a"
| "js_min (Fin a) (Fin b) = Fin (min a b)"

text \<open>\<open>a < b\<close>: false whenever an argument is \<open>NaN\<close>.\<close>

fun js_lt :: "jsnum \<Rightarrow> jsnum \<Rightarrow> bool" where
  "js_lt NaN _ = False"
| "js_lt _ NaN = False"
| "js_lt (Fin a) (Fin b) = (a < b)"
| "js_lt NegInf NegInf = False"
| "js_lt NegInf _ = True"
| "js_lt PosInf _ = False"
| "js_lt (Fin a) PosInf = True"
| "js_lt (Fin a) NegInf = False"

text \<open>
  A timestamp slot holds a number or \<open>undefined\<close> (\<open>None\<close>). In arithmetic
  \<open>undefined\<close> converts to \<open>NaN\<close>; in a condition, \<open>undefined\<close> and \<open>0\<close> are falsy.
\<close>

definition to_number :: "real option \<Rightarrow> jsnum" where
  "to_number v = (case v of None \<Rightarrow> NaN | Some x \<Rightarrow> Fin x)"

definition truthy :: "real option \<Rightarrow> bool" where
  "truthy v = (case v of None \<Rightarrow> False | Some x \<Rightarrow> x \<noteq> 0)"

section \<open>The list service: normalised items, maximal offset, easing\<close>

text \<open>
  \<open>VirtualizedList.jsx\<close> imports \<open>getNormalizedItems\<close>, \<open>easeInOutQuint\<close> and
  \<open>getMaxOffset\<close> from \<open>./virtualized-list-service\<close>. The three definitions of this
  section stand for that module.
\<close>

type_synonym itemId = string

record 'a normalizedEntry =
  item :: 'a
  index :: nat
  height :: real
  offsetTop :: real

type_synonym 'a normalizedIndex = "(itemId \<times> 'a normalizedEntry) list"

text \<open>
  Modelled from the spec: the body of \<open>getNormalizedItems\<close> (module
  \<open>virtualized-list-service\<close>) is missing. The spec: a single forward pass accumulating
  a running offset; for the item at position i, offsetTop is the running offset before
  processing i, and the running offset grows by height(i) after; the result is a new
  mapping from identifier to \<open>{item, index, height, offsetTop}\<close>, last write wins on a
  duplicate identifier. The mapping is kept as an association list in insertion order
  (\<open>AList.update\<close> overwrites a key in place), looked up with \<open>map_of\<close>. The getters
  receive the item and its position, as the component's default getters
  \<open>(item, _index) => item.id\<close> are declared; a getter of the item alone ignores the
  position.
\<close>

fun normalize_pass ::
  "('a \<Rightarrow> nat \<Rightarrow> itemId) \<Rightarrow> ('a \<Rightarrow> nat \<Rightarrow> real) \<Rightarrow> 'a list \<Rightarrow> nat \<Rightarrow> real \<Rightarrow>
   'a normalizedIndex \<Rightarrow> 'a normalizedIndex" where
  "normalize_pass getId getHeight [] i running acc = acc"
| "normalize_pass getId getHeight (x # xs) i running acc =
     normalize_pass getId getHeight xs (Suc i) (running + getHeight x i)
       (AList.update (getId x i)
          \<lparr>item = x, index = i, height = getHeight x i, offsetTop = running\<rparr> acc)"

text \<open>
  Modelled from the spec: \<open>getNormalizedItems\<close> itself (module
  \<open>virtualized-list-service\<close>) is missing; it is the pass above started at position 0
  with running offset 0 and an empty mapping.
\<close>

definition getNormalizedItems ::
  "'a list \<Rightarrow> ('a \<Rightarrow> nat \<Rightarrow> itemId) \<Rightarrow> ('a \<Rightarrow> nat \<Rightarrow> real) \<Rightarrow> 'a normalizedIndex" where
  "getNormalizedItems items getId getHeight = normalize_pass getId getHeight items 0 0 []"

text \<open>
  Modelled from the spec: the body of \<open>getMaxOffset\<close> (module
  \<open>virtualized-list-service\<close>) is missing. The spec: totalContentHeight is the offsetTop
  of the last item plus its height, 0 if the index is empty.
\<close>

definition totalContentHeight :: "'a normalizedIndex \<Rightarrow> real" where
  "totalContentHeight idx =
     (case idx of [] \<Rightarrow> 0 | _ # _ \<Rightarrow> offsetTop (snd (last idx)) + height (snd (last idx)))"

text \<open>
  Modelled from the spec: \<open>getMaxOffset\<close> itself (module \<open>virtualized-list-service\<close>) is
  missing; the spec's result, max(0, totalContentHeight - viewportHeight).
\<close>

definition getMaxOffset :: "real \<Rightarrow> 'a normalizedIndex \<Rightarrow> real" where
  "getMaxOffset offsetHeight idx = max 0 (totalContentHeight idx - offsetHeight)"

text \<open>
  Modelled from the spec: the body of \<open>easeInOutQuint\<close> (module
  \<open>virtualized-list-service\<close>) is missing. The spec: if t < 0.5 then 16 t^5 else
  1 - ((-2t + 2)^5) / 2. \<open>quint\<close> is this formula on the reals.
\<close>

definition quint :: "real \<Rightarrow> real" where
  "quint t = (if t < 1 / 2 then 16 * t ^ 5 else 1 - ((- 2 * t + 2) ^ 5) / 2)"

text \<open>
  Modelled from the spec: \<open>easeInOutQuint\<close> itself (module \<open>virtualized-list-service\<close>)
  is missing; it is the spec's formula evaluated with JavaScript arithmetic, which also
  fixes its value at a non-finite argument. \<open>js_pow5\<close> is the fifth power.
\<close>

definition js_pow5 :: "jsnum \<Rightarrow> jsnum" where
  "js_pow5 x = js_mul x (js_mul x (js_mul x (js_mul x x)))"

definition easeInOutQuint :: "jsnum \<Rightarrow> jsnum" where
  "easeInOutQuint t =
     (if js_lt t (Fin (1 / 2)) then js_mul (Fin 16) (js_pow5 t)
      else js_sub (Fin 1) (js_div (js_pow5 (js_add (js_mul (Fin (- 2)) t) (Fin 2))) (Fin 2)))"

section \<open>The component\<close>

text \<open>
  The refs of one \<open>VirtualizedList\<close> instance, and what it has done to its
  collaborators so far: the frames it has requested and not yet run, the arguments of
  its \<open>listRef.current.scrollTo\<close> calls (oldest first), and the calls of the \<open>onScroll\<close>
  and \<open>onScrollToFinished\<close> props.
\<close>

datatype scrollDirection = Forward | Backward

record vlist =
  scrollOffsetInitial :: real
  scrollOffsetFinal :: real
  animationStartTime :: "real option"
  scrollTop :: real
  listRef :: bool
  pendingFrames :: nat
  scrollToCalls :: "jsnum list"
  onScrollCalls :: "(scrollDirection \<times> real \<times> bool) list"
  onScrollToFinishedCalls :: nat

text \<open>
  What a callback closes over: the \<open>scrollDuration\<close> prop, the memoised
  \<open>maxListOffset\<close>, and whether the optional props \<open>onScroll\<close> and
  \<open>onScrollToFinished\<close> are given. A frame loop keeps the closure it was started with.
\<close>

record props =
  scrollDuration :: real
  maxListOffset :: real
  onScroll :: bool
  onScrollToFinished :: bool

text \<open>Lines 28-41: the refs at the first render; \<open>listRef.current\<close> is still null.\<close>

definition initial :: vlist where
  "initial =
     \<lparr>scrollOffsetInitial = 0, scrollOffsetFinal = 0, animationStartTime = Some 0,
      scrollTop = 0, listRef = False, pendingFrames = 0, scrollToCalls = [],
      onScrollCalls = [], onScrollToFinishedCalls = 0\<rparr>"

text \<open>Lines 54-63.\<close>

definition onScrollCB :: "props \<Rightarrow> scrollDirection \<Rightarrow> real \<Rightarrow> bool \<Rightarrow> vlist \<Rightarrow> vlist" where
  "onScrollCB p scrollDirection scrollOffset scrollUpdateWasRequested st =
     (let st1 = st\<lparr>scrollTop := scrollOffset\<rparr>;
          st2 = (if \<not> scrollUpdateWasRequested
                 then st1\<lparr>scrollOffsetInitial := scrollOffset\<rparr> else st1)
      in if onScroll p
         then st2\<lparr>onScrollCalls :=
                onScrollCalls st2 @ [(scrollDirection, scrollOffset, scrollUpdateWasRequested)]\<rparr>
         else st2)"

text \<open>Lines 65-67.\<close>

definition onAnimationComplete :: "props \<Rightarrow> vlist \<Rightarrow> vlist" where
  "onAnimationComplete p st =
     (if onScrollToFinished p
      then st\<lparr>onScrollToFinishedCalls := Suc (onScrollToFinishedCalls st)\<rparr> else st)"

text \<open>Lines 71-75: the values one frame computes at time \<open>now\<close>.\<close>

definition ellapsed :: "real \<Rightarrow> vlist \<Rightarrow> jsnum" where
  "ellapsed now st = js_sub (Fin now) (to_number (animationStartTime st))"

definition frameOffset :: "props \<Rightarrow> real \<Rightarrow> vlist \<Rightarrow> jsnum" where
  "frameOffset p now st =
     (let scrollDelta = Fin (scrollOffsetFinal st - scrollOffsetInitial st);
          easedTime = easeInOutQuint (js_min (Fin 1) (js_div (ellapsed now st) (Fin (scrollDuration p))))
      in js_add (Fin (scrollOffsetInitial st)) (js_mul scrollDelta easedTime))"

text \<open>
  Lines 70-86, the callback given to \<open>requestAnimationFrame\<close>. It runs only when a
  frame is pending. With \<open>listRef.current\<close> null, \<open>listRef.current.scrollTo\<close> throws a
  TypeError and the rest of the callback does not run.
\<close>

datatype error = TypeError

definition frameCallback :: "props \<Rightarrow> real \<Rightarrow> vlist \<Rightarrow> error + vlist" where
  "frameCallback p now st =
     (if \<not> listRef st then Inl TypeError
      else
        let st1 = st\<lparr>scrollToCalls :=
                     scrollToCalls st @ [js_min (Fin (maxListOffset p)) (frameOffset p now st)]\<rparr>
        in if js_lt (ellapsed now st) (Fin (scrollDuration p))
           then Inr (st1\<lparr>pendingFrames := Suc (pendingFrames st1)\<rparr>)
           else Inr (onAnimationComplete p
                  (st1\<lparr>animationStartTime := None,
                       scrollOffsetInitial := scrollOffsetFinal st1\<rparr>)))"

text \<open>Lines 69-87: \<open>animateScroll\<close> requests one frame.\<close>

definition animateScroll :: "vlist \<Rightarrow> vlist" where
  "animateScroll st = st\<lparr>pendingFrames := Suc (pendingFrames st)\<rparr>"

text \<open>Lines 89-102; \<open>now\<close> is what \<open>performance.now()\<close> returns.\<close>

definition startScrollAnimation :: "real \<Rightarrow> 'a normalizedEntry \<Rightarrow> vlist \<Rightarrow> vlist" where
  "startScrollAnimation now it st =
     (if truthy (animationStartTime st) \<or> scrollOffsetFinal st = offsetTop it then st
      else animateScroll (st\<lparr>scrollOffsetFinal := offsetTop it, animationStartTime := Some now\<rparr>))"

text \<open>
  Lines 105-112, the effect on \<open>scrollToId\<close>. The prop is a string or \<open>undefined\<close>
  (\<open>None\<close>); \<open>undefined\<close> and the empty string are falsy.
\<close>

definition scrollToIdEffect ::
  "'a normalizedIndex \<Rightarrow> itemId option \<Rightarrow> real \<Rightarrow> vlist \<Rightarrow> vlist" where
  "scrollToIdEffect normalizedItems scrollToId now st =
     (case scrollToId of
        None \<Rightarrow> st
      | Some i \<Rightarrow>
          if i \<noteq> [] \<and> listRef st
          then (case map_of normalizedItems i of
                  None \<Rightarrow> st
                | Some it \<Rightarrow> startScrollAnimation now it st)
          else st)"

section \<open>Frames and events over time\<close>

text \<open>
  The browser runs a requested frame callback once: \<open>runFrame\<close> does nothing when no
  frame is pending, and otherwise takes one pending frame and runs the callback. An
  exception thrown by the callback ends that callback only: the state is as the callback
  found it, with that frame no longer pending.
\<close>

definition runFrame :: "props \<Rightarrow> real \<Rightarrow> vlist \<Rightarrow> vlist" where
  "runFrame p now st =
     (if pendingFrames st = 0 then st
      else
        let taken = st\<lparr>pendingFrames := pendingFrames st - 1\<rparr>
        in case frameCallback p now taken of Inl e \<Rightarrow> taken | Inr st' \<Rightarrow> st')"

fun runFrames :: "props \<Rightarrow> real list \<Rightarrow> vlist \<Rightarrow> vlist" where
  "runFrames p [] st = st"
| "runFrames p (now # nows) st = runFrames p nows (runFrame p now st)"

text \<open>
  What can happen to an instance: the \<open>scrollToId\<close> effect runs (with the clock's
  reading), a requested frame runs (with the clock's reading), the list reports a
  scroll, or React sets or clears \<open>listRef.current\<close>.
\<close>

datatype event =
  ScrollToId "itemId option" real
| Frame real
| Scroll scrollDirection real bool
| ListRef bool

fun step :: "props \<Rightarrow> 'a normalizedIndex \<Rightarrow> event \<Rightarrow> vlist \<Rightarrow> vlist" where
  "step p idx (ScrollToId i now) st = scrollToIdEffect idx i now st"
| "step p idx (Frame now) st = runFrame p now st"
| "step p idx (Scroll d off req) st = onScrollCB p d off req st"
| "step p idx (ListRef b) st = st\<lparr>listRef := b\<rparr>"

fun run :: "props \<Rightarrow> 'a normalizedIndex \<Rightarrow> event list \<Rightarrow> vlist \<Rightarrow> vlist" where
  "run p idx [] st = st"
| "run p idx (e # es) st = run p idx es (step p idx e st)"

text \<open>
  Whether the clock read something other than zero when a \<open>scrollToId\<close> effect ran, and
  whether an event is such an effect.
\<close>

fun clockNonzero :: "event \<Rightarrow> bool" where
  "clockNonzero (ScrollToId i now) = (now \<noteq> 0)"
| "clockNonzero _ = True"

fun isScrollToId :: "event \<Rightarrow> bool" where
  "isScrollToId (ScrollToId i now) = True"
| "isScrollToId _ = False"

text \<open>Whether a value passed to the setter is a finite offset in \<open>[lo, hi]\<close>.\<close>

fun finiteWithin :: "real \<Rightarrow> real \<Rightarrow> jsnum \<Rightarrow> bool" where
  "finiteWithin lo hi (Fin x) = (lo \<le> x \<and> x \<le> hi)"
| "finiteWithin lo hi _ = False"

section \<open>Concrete data for evaluation\<close>

text \<open>
  Five items of heights 20, 30, 40, 10 and 25, a viewport of height 60 and an animation
  of 200 ms; each item is a pair of its identifier and its height.
\<close>

abbreviation scenarioItems :: "(itemId \<times> real) list" where
  "scenarioItems \<equiv> [(''a'', 20), (''b'', 30), (''c'', 40), (''d'', 10), (''e'', 25)]"

abbreviation scenarioIndex :: "(itemId \<times> real) normalizedIndex" where
  "scenarioIndex \<equiv> getNormalizedItems scenarioItems (\<lambda>x i. fst x) (\<lambda>x i. snd x)"

abbreviation scenarioProps :: props where
  "scenarioProps \<equiv>
     \<lparr>scrollDuration = 200, maxListOffset = getMaxOffset 60 scenarioIndex,
      onScroll = False, onScrollToFinished = True\<rparr>"

abbreviation mounted :: vlist where
  "mounted \<equiv> initial\<lparr>listRef := True\<rparr>"

section \<open>The easing function\<close>

lemma pow5_unfold: "(x::real) ^ 5 = x * (x * (x * (x * x)))"
  by (simp add: eval_nat_numeral)

lemma easeInOutQuint_Fin: "easeInOutQuint (Fin t) = Fin (quint t)"
  by (simp add: easeInOutQuint_def quint_def js_pow5_def js_sub_def pow5_unfold)

lemma easeInOutQuint_NaN: "easeInOutQuint NaN = NaN"
  by (simp add: easeInOutQuint_def js_pow5_def js_sub_def)

lemma easeInOutQuint_NegInf: "easeInOutQuint NegInf = NegInf"
  by (simp add: easeInOutQuint_def js_pow5_def js_sub_def js_inf_def)

lemma quint_low: "t < 1 / 2 \<Longrightarrow> quint t = 16 * t ^ 5"
  by (simp add: quint_def)

lemma quint_high: "1 / 2 \<le> t \<Longrightarrow> quint t = 1 - ((- 2 * t + 2) ^ 5) / 2"
  by (simp add: quint_def)

lemma quint_0: "quint 0 = 0"
  by (simp add: quint_def)

lemma quint_half: "quint (1 / 2) = 1 / 2"
  by (simp add: quint_def)

lemma quint_1: "quint 1 = 1"
  by (simp add: quint_def)

text \<open>
  Monotonicity, by the position of the two arguments around \<open>1/2\<close>: both below (a fifth
  power of a non-negative number grows), both above (\<open>2 - 2t\<close> shrinks), or one on each
  side (the value \<open>1/2\<close> separates them).
\<close>

lemma quint_mono:
  assumes "0 \<le> t" and "t \<le> u" and "u \<le> 1"
  shows "quint t \<le> quint u"
proof -
  consider "u < 1 / 2" | "1 / 2 \<le> t" | "t < 1 / 2" "1 / 2 \<le> u" by linarith
  then show ?thesis
  proof cases
    case 1
    then have "t < 1 / 2" using assms by linarith
    moreover have "t ^ 5 \<le> u ^ 5" using assms by (intro power_mono) auto
    ultimately show ?thesis using 1 by (simp add: quint_low)
  next
    case 2
    then have hu: "1 / 2 \<le> u" using assms by linarith
    have "(- 2 * u + 2) ^ 5 \<le> (- 2 * t + 2) ^ 5"
      using assms by (intro power_mono) auto
    then show ?thesis using 2 hu by (simp add: quint_high)
  next
    case 3
    have "t ^ 5 \<le> (1 / 2) ^ 5" using assms 3 by (intro power_mono) auto
    then have a: "quint t \<le> 1 / 2" using 3 by (simp add: quint_low power_divide)
    have "(- 2 * u + 2) ^ 5 \<le> 1 ^ 5" using assms 3 by (intro power_mono) auto
    then have b: "1 / 2 \<le> quint u" using 3 by (simp add: quint_high)
    from a b show ?thesis by linarith
  qed
qed

lemma quint_range:
  assumes "0 \<le> t" and "t \<le> 1"
  shows "0 \<le> quint t \<and> quint t \<le> 1"
proof -
  have "quint 0 \<le> quint t" using assms by (intro quint_mono) auto
  moreover have "quint t \<le> quint 1" using assms by (intro quint_mono) auto
  ultimately show ?thesis by (simp add: quint_0 quint_1)
qed

text \<open>
  C7. The easing function is \<open>16 t^5\<close> below \<open>1/2\<close> and \<open>1 - (-2t + 2)^5 / 2\<close> from
  \<open>1/2\<close> on; it maps 0 to 0, \<open>1/2\<close> to \<open>1/2\<close> and 1 to 1; on \<open>[0, 1]\<close> its values lie in
  \<open>[0, 1]\<close> and it is monotonically non-decreasing.
\<close>

theorem easeInOutQuint_spec:
  "easeInOutQuint (Fin t) =
     Fin (if t < 1 / 2 then 16 * t ^ 5 else 1 - ((- 2 * t + 2) ^ 5) / 2)
   \<and> easeInOutQuint (Fin 0) = Fin 0
   \<and> easeInOutQuint (Fin (1 / 2)) = Fin (1 / 2)
   \<and> easeInOutQuint (Fin 1) = Fin 1
   \<and> (0 \<le> t \<and> t \<le> 1 \<longrightarrow> finiteWithin 0 1 (easeInOutQuint (Fin t)))
   \<and> (0 \<le> t \<and> t \<le> u \<and> u \<le> 1 \<longrightarrow>
        (\<exists>a b. easeInOutQuint (Fin t) = Fin a \<and> easeInOutQuint (Fin u) = Fin b \<and> a \<le> b))"
proof -
  have "easeInOutQuint (Fin t) =
      Fin (if t < 1 / 2 then 16 * t ^ 5 else 1 - ((- 2 * t + 2) ^ 5) / 2)"
    by (simp add: easeInOutQuint_Fin quint_def)
  moreover have "easeInOutQuint (Fin 0) = Fin 0"
    by (simp add: easeInOutQuint_Fin quint_0)
  moreover have "easeInOutQuint (Fin (1 / 2)) = Fin (1 / 2)"
    using quint_half by (simp add: easeInOutQuint_Fin)
  moreover have "easeInOutQuint (Fin 1) = Fin 1"
    by (simp add: easeInOutQuint_Fin quint_1)
  moreover have "0 \<le> t \<and> t \<le> 1 \<longrightarrow> finiteWithin 0 1 (easeInOutQuint (Fin t))"
    using quint_range [of t] by (simp add: easeInOutQuint_Fin)
  moreover have "0 \<le> t \<and> t \<le> u \<and> u \<le> 1 \<longrightarrow>
      (\<exists>a b. easeInOutQuint (Fin t) = Fin a \<and> easeInOutQuint (Fin u) = Fin b \<and> a \<le> b)"
    using quint_mono [of t u] by (simp add: easeInOutQuint_Fin)
  ultimately show ?thesis by blast
qed

theorem easeInOutQuint_spec_witness:
  "(0::real) \<le> 1 / 4 \<and> (1 / 4 :: real) \<le> 3 / 4 \<and> (3 / 4 :: real) \<le> 1
   \<and> easeInOutQuint (Fin (1 / 4)) = Fin (1 / 64)
   \<and> finiteWithin 0 1 (easeInOutQuint (Fin (1 / 4)))"
  using easeInOutQuint_spec [of "1 / 4" "3 / 4"] by (simp add: power_divide)

section \<open>One frame\<close>

lemma ellapsed_Some: "animationStartTime st = Some s \<Longrightarrow> ellapsed now st = Fin (now - s)"
  by (simp add: ellapsed_def to_number_def js_sub_def)

lemma ellapsed_None: "animationStartTime st = None \<Longrightarrow> ellapsed now st = NaN"
  by (simp add: ellapsed_def to_number_def js_sub_def)

lemma frameOffset_Fin:
  assumes "animationStartTime st = Some s" and "scrollDuration p \<noteq> 0"
  shows "frameOffset p now st =
     Fin (scrollOffsetInitial st + (scrollOffsetFinal st - scrollOffsetInitial st) *
        quint (min 1 ((now - s) / scrollDuration p)))"
  using assms by (simp add: frameOffset_def ellapsed_Some easeInOutQuint_Fin)

lemma frameOffset_zero_duration:
  assumes "animationStartTime st = Some s" and "scrollDuration p = 0" and "s \<le> now"
  shows "frameOffset p now st = (if s < now then Fin (scrollOffsetFinal st) else NaN)"
  using assms
  by (simp add: frameOffset_def ellapsed_Some easeInOutQuint_Fin easeInOutQuint_NaN
      js_inf_def quint_1)

lemma frameCallback_continue:
  assumes "listRef st" and "animationStartTime st = Some s" and "now - s < scrollDuration p"
  shows "frameCallback p now st =
     Inr (st\<lparr>scrollToCalls :=
            scrollToCalls st @ [js_min (Fin (maxListOffset p)) (frameOffset p now st)],
          pendingFrames := Suc (pendingFrames st)\<rparr>)"
  using assms by (simp add: frameCallback_def ellapsed_Some Let_def)

lemma frameCallback_complete:
  assumes "listRef st" and "animationStartTime st = Some s" and "scrollDuration p \<le> now - s"
  shows "frameCallback p now st =
     Inr (onAnimationComplete p
       (st\<lparr>scrollToCalls :=
            scrollToCalls st @ [js_min (Fin (maxListOffset p)) (frameOffset p now st)],
          animationStartTime := None,
          scrollOffsetInitial := scrollOffsetFinal st\<rparr>))"
  using assms by (simp add: frameCallback_def ellapsed_Some Let_def)

text \<open>
  A frame that finds \<open>animationStartTime\<close> undefined computes with \<open>NaN\<close>: it passes
  \<open>NaN\<close> to the setter and takes the completing branch, since \<open>NaN < scrollDuration\<close> is
  false.
\<close>

lemma frameCallback_undefined_start:
  assumes "listRef st" and "animationStartTime st = None"
  shows "frameCallback p now st =
     Inr (onAnimationComplete p
       (st\<lparr>scrollToCalls := scrollToCalls st @ [NaN],
          animationStartTime := None,
          scrollOffsetInitial := scrollOffsetFinal st\<rparr>))"
  using assms
  by (simp add: frameCallback_def frameOffset_def ellapsed_None easeInOutQuint_NaN Let_def)

lemma runFrame_idle: "pendingFrames st = 0 \<Longrightarrow> runFrame p now st = st"
  by (simp add: runFrame_def)

lemma runFrames_idle: "pendingFrames st = 0 \<Longrightarrow> runFrames p nows st = st"
  by (induction nows) (simp_all add: runFrame_idle)

lemma runFrame_continue:
  assumes "listRef st" and "animationStartTime st = Some s" and "now - s < scrollDuration p"
    and "0 < pendingFrames st"
  shows "runFrame p now st =
     st\<lparr>scrollToCalls :=
            scrollToCalls st @ [js_min (Fin (maxListOffset p)) (frameOffset p now st)]\<rparr>"
  using assms
  by (simp add: runFrame_def Let_def frameCallback_def ellapsed_def frameOffset_def
      to_number_def js_sub_def)

lemma runFrame_complete:
  assumes "listRef st" and "animationStartTime st = Some s" and "scrollDuration p \<le> now - s"
    and "0 < pendingFrames st"
  shows "runFrame p now st =
     onAnimationComplete p
       (st\<lparr>scrollToCalls :=
            scrollToCalls st @ [js_min (Fin (maxListOffset p)) (frameOffset p now st)],
          animationStartTime := None,
          scrollOffsetInitial := scrollOffsetFinal st,
          pendingFrames := pendingFrames st - 1\<rparr>)"
  using assms
  by (simp add: runFrame_def Let_def frameCallback_def ellapsed_def frameOffset_def
      to_number_def js_sub_def onAnimationComplete_def)

text \<open>
  A whole animation: from a state with one pending frame, the frames at the times
  \<open>nows\<close> either never reach the duration, and the loop is still running, or the first
  one that does ends the loop, and no later frame runs.
\<close>

lemma runFrames_animation:
  assumes "listRef st" and "animationStartTime st = Some s" and "pendingFrames st = 1"
  shows "if \<exists>now \<in> set nows. scrollDuration p \<le> now - s
     then pendingFrames (runFrames p nows st) = 0
        \<and> animationStartTime (runFrames p nows st) = None
        \<and> scrollOffsetInitial (runFrames p nows st) = scrollOffsetFinal st
        \<and> onScrollToFinishedCalls (runFrames p nows st) =
            (if onScrollToFinished p then Suc (onScrollToFinishedCalls st)
             else onScrollToFinishedCalls st)
     else pendingFrames (runFrames p nows st) = 1
        \<and> animationStartTime (runFrames p nows st) = Some s
        \<and> onScrollToFinishedCalls (runFrames p nows st) = onScrollToFinishedCalls st"
  using assms
proof (induction nows arbitrary: st)
  case Nil
  then show ?case by simp
next
  case (Cons now nows)
  show ?case
  proof (cases "scrollDuration p \<le> now - s")
    case True
    let ?st' = "runFrame p now st"
    have eq: "?st' = onAnimationComplete p
       (st\<lparr>scrollToCalls :=
            scrollToCalls st @ [js_min (Fin (maxListOffset p)) (frameOffset p now st)],
          animationStartTime := None,
          scrollOffsetInitial := scrollOffsetFinal st,
          pendingFrames := pendingFrames st - 1\<rparr>)"
      using Cons.prems True by (intro runFrame_complete) auto
    have idle: "pendingFrames ?st' = 0"
      using Cons.prems by (simp add: eq onAnimationComplete_def)
    have "runFrames p (now # nows) st = ?st'"
      using idle by (simp add: runFrames_idle)
    then show ?thesis
      using True Cons.prems by (simp add: eq onAnimationComplete_def)
  next
    case False
    let ?st' = "runFrame p now st"
    have eq: "?st' = st\<lparr>scrollToCalls :=
            scrollToCalls st @ [js_min (Fin (maxListOffset p)) (frameOffset p now st)]\<rparr>"
      using Cons.prems False by (intro runFrame_continue) auto
    have "listRef ?st'" "animationStartTime ?st' = Some s" "pendingFrames ?st' = 1"
      using Cons.prems by (simp_all add: eq)
    from Cons.IH [OF this] show ?thesis
      using False by (auto simp: eq split: if_splits)
  qed
qed

text \<open>
  C4. When a frame observes \<open>ellapsed \<ge> scrollDuration\<close>, the callback requests no
  further frame, clears \<open>animationStartTime\<close>, sets \<open>scrollOffsetInitial\<close> to
  \<open>scrollOffsetFinal\<close> and calls the completion callback once. Over the frames of one
  animation, whatever their times, the completion callback is called once in all when
  some frame reaches the duration, and no frame is pending afterwards.
\<close>

theorem frame_completion:
  assumes "listRef st" and "animationStartTime st = Some s"
    and "scrollDuration p \<le> now - s" and "onScrollToFinished p"
  shows "(\<exists>st'. frameCallback p now st = Inr st'
        \<and> pendingFrames st' = pendingFrames st
        \<and> animationStartTime st' = None
        \<and> scrollOffsetInitial st' = scrollOffsetFinal st
        \<and> scrollOffsetFinal st' = scrollOffsetFinal st
        \<and> onScrollToFinishedCalls st' = Suc (onScrollToFinishedCalls st))
     \<and> (pendingFrames st = 1 \<longrightarrow>
         (\<forall>before after.
            pendingFrames (runFrames p (before @ now # after) st) = 0
          \<and> animationStartTime (runFrames p (before @ now # after) st) = None
          \<and> scrollOffsetInitial (runFrames p (before @ now # after) st) = scrollOffsetFinal st
          \<and> onScrollToFinishedCalls (runFrames p (before @ now # after) st) =
              Suc (onScrollToFinishedCalls st)))"
proof -
  have one: "\<exists>st'. frameCallback p now st = Inr st'
        \<and> pendingFrames st' = pendingFrames st
        \<and> animationStartTime st' = None
        \<and> scrollOffsetInitial st' = scrollOffsetFinal st
        \<and> scrollOffsetFinal st' = scrollOffsetFinal st
        \<and> onScrollToFinishedCalls st' = Suc (onScrollToFinishedCalls st)"
    using assms by (simp add: frameCallback_complete onAnimationComplete_def)
  have all: "pendingFrames (runFrames p (before @ now # after) st) = 0
          \<and> animationStartTime (runFrames p (before @ now # after) st) = None
          \<and> scrollOffsetInitial (runFrames p (before @ now # after) st) = scrollOffsetFinal st
          \<and> onScrollToFinishedCalls (runFrames p (before @ now # after) st) =
              Suc (onScrollToFinishedCalls st)"
    if "pendingFrames st = 1" for before after
  proof -
    have "\<exists>t \<in> set (before @ now # after). scrollDuration p \<le> t - s"
      using assms(3) by auto
    with runFrames_animation [OF assms(1,2) that, of "before @ now # after" p] assms(4)
    show ?thesis by (simp only: if_True)
  qed
  from one all show ?thesis by blast
qed

theorem frame_completion_witness:
  "listRef (startScrollAnimation 1000 \<lparr>item = (), index = 3, height = 10, offsetTop = 90\<rparr> mounted)
   \<and> scrollDuration scenarioProps \<le> 1200 - 1000
   \<and> onScrollToFinished scenarioProps
   \<and> onScrollToFinishedCalls
       (runFrames scenarioProps [1016, 1100, 1200, 1216, 1232]
          (startScrollAnimation 1000 \<lparr>item = (), index = 3, height = 10, offsetTop = 90\<rparr> mounted)) = 1
   \<and> pendingFrames
       (runFrames scenarioProps [1016, 1100, 1200, 1216, 1232]
          (startScrollAnimation 1000 \<lparr>item = (), index = 3, height = 10, offsetTop = 90\<rparr> mounted)) = 0"
proof -
  let ?st = "startScrollAnimation 1000 \<lparr>item = (), index = 3, height = 10, offsetTop = 90\<rparr> mounted"
  have h: "listRef ?st" "animationStartTime ?st = Some 1000"
      "scrollDuration scenarioProps \<le> 1200 - 1000" "onScrollToFinished scenarioProps"
      "pendingFrames ?st = 1" "onScrollToFinishedCalls ?st = 0"
    by (simp_all add: startScrollAnimation_def animateScroll_def initial_def truthy_def)
  from frame_completion [OF h(1-4)] h(5)
  have "onScrollToFinishedCalls (runFrames scenarioProps ([1016, 1100] @ 1200 # [1216, 1232]) ?st)
        = Suc (onScrollToFinishedCalls ?st)
     \<and> pendingFrames (runFrames scenarioProps ([1016, 1100] @ 1200 # [1216, 1232]) ?st) = 0"
    by blast
  with h show ?thesis by simp
qed

section \<open>The offset a frame passes to the list\<close>

lemma interpolation_nonneg:
  fixes a b q :: real
  assumes "0 \<le> a" and "0 \<le> b" and "0 \<le> q" and "q \<le> 1"
  shows "0 \<le> a + (b - a) * q"
proof -
  have "a + (b - a) * q = (1 - q) * a + q * b" by (simp add: algebra_simps)
  moreover have "0 \<le> (1 - q) * a" using assms by (intro mult_nonneg_nonneg) auto
  moreover have "0 \<le> q * b" using assms by (intro mult_nonneg_nonneg) auto
  ultimately show ?thesis by linarith
qed

lemma progress_bounds:
  fixes e d :: real
  assumes "0 \<le> e" and "0 < d"
  shows "0 \<le> min 1 (e / d)" and "min 1 (e / d) \<le> 1" and "d \<le> e \<Longrightarrow> min 1 (e / d) = 1"
  using assms by (simp_all add: min_def)

text \<open>
  C1, as amended. On a frame of a running animation, with a positive duration and a
  clock that has not gone back, the setter receives
  \<open>min(maxListOffset, initial + (final - initial) * easing(min(1, ellapsed / duration)))\<close>:
  the code bounds the progress and the offset from above only. The offset is therefore
  never above \<open>maxListOffset\<close>; it is the offset clamped to \<open>[0, maxListOffset]\<close>, and not
  below 0, whenever \<open>scrollOffsetInitial\<close>, \<open>scrollOffsetFinal\<close> and \<open>maxListOffset\<close> are
  non-negative; and on the frame where \<open>ellapsed \<ge> scrollDuration\<close> it is
  \<open>min(maxListOffset, scrollOffsetFinal)\<close>.
\<close>

theorem frame_offset:
  assumes "listRef st" and "animationStartTime st = Some s" and "s \<le> now"
    and "0 < scrollDuration p"
  shows "\<exists>v st'. frameCallback p now st = Inr st'
     \<and> scrollToCalls st' = scrollToCalls st @ [Fin v]
     \<and> v = min (maxListOffset p)
           (scrollOffsetInitial st + (scrollOffsetFinal st - scrollOffsetInitial st) *
              quint (min 1 ((now - s) / scrollDuration p)))
     \<and> v \<le> maxListOffset p
     \<and> (0 \<le> scrollOffsetInitial st \<and> 0 \<le> scrollOffsetFinal st \<and> 0 \<le> maxListOffset p \<longrightarrow>
          0 \<le> v
        \<and> v = max 0 (min (maxListOffset p)
             (scrollOffsetInitial st + (scrollOffsetFinal st - scrollOffsetInitial st) *
                quint (max 0 (min 1 ((now - s) / scrollDuration p))))))
     \<and> (scrollDuration p \<le> now - s \<longrightarrow> v = min (maxListOffset p) (scrollOffsetFinal st))"
proof -
  define t where "t = min 1 ((now - s) / scrollDuration p)"
  define x where "x = scrollOffsetInitial st + (scrollOffsetFinal st - scrollOffsetInitial st) * quint t"
  define v where "v = min (maxListOffset p) x"
  have t01: "0 \<le> t" "t \<le> 1"
    using assms(3,4) progress_bounds(1,2) [of "now - s" "scrollDuration p"]
    by (simp_all add: t_def)
  have off: "frameOffset p now st = Fin x"
    using assms(2,4) by (simp add: frameOffset_Fin x_def t_def)
  have "\<exists>st'. frameCallback p now st = Inr st' \<and> scrollToCalls st' = scrollToCalls st @ [Fin v]"
  proof (cases "now - s < scrollDuration p")
    case True
    then show ?thesis
      using assms(1,2) by (simp add: frameCallback_continue off v_def)
  next
    case False
    then show ?thesis
      using assms(1,2)
      by (simp add: frameCallback_complete off v_def onAnimationComplete_def)
  qed
  moreover have "v \<le> maxListOffset p"
    by (simp add: v_def)
  moreover have "0 \<le> v \<and> v = max 0 (min (maxListOffset p)
             (scrollOffsetInitial st + (scrollOffsetFinal st - scrollOffsetInitial st) *
                quint (max 0 t)))"
    if nn: "0 \<le> scrollOffsetInitial st \<and> 0 \<le> scrollOffsetFinal st \<and> 0 \<le> maxListOffset p"
  proof -
    have q: "0 \<le> quint t" "quint t \<le> 1"
      using quint_range [OF t01] by simp_all
    have "0 \<le> x"
      unfolding x_def using nn q by (intro interpolation_nonneg) auto
    then have "0 \<le> v" using nn by (simp add: v_def)
    moreover have "max 0 t = t" using t01 by simp
    ultimately show ?thesis by (simp add: v_def x_def)
  qed
  moreover have "v = min (maxListOffset p) (scrollOffsetFinal st)"
    if "scrollDuration p \<le> now - s"
  proof -
    have "t = 1"
      using that assms(3,4) progress_bounds(3) [of "now - s" "scrollDuration p"]
      by (simp add: t_def)
    then show ?thesis by (simp add: v_def x_def quint_1)
  qed
  ultimately show ?thesis
    unfolding v_def x_def t_def by blast
qed

theorem frame_offset_witness:
  "listRef (startScrollAnimation 1000 \<lparr>item = (), index = 3, height = 10, offsetTop = 90\<rparr> mounted)
   \<and> (1000::real) \<le> 1200
   \<and> 0 < scrollDuration scenarioProps
   \<and> scrollDuration scenarioProps \<le> 1200 - 1000
   \<and> (\<exists>st'. frameCallback scenarioProps 1200
          (startScrollAnimation 1000 \<lparr>item = (), index = 3, height = 10, offsetTop = 90\<rparr> mounted)
        = Inr st' \<and> scrollToCalls st' = [Fin 65])"
proof -
  let ?st = "startScrollAnimation 1000 \<lparr>item = (), index = 3, height = 10, offsetTop = 90\<rparr> mounted"
  have m: "maxListOffset scenarioProps = 65"
    by (simp add: getMaxOffset_def totalContentHeight_def getNormalizedItems_def)
  have h: "listRef ?st" "animationStartTime ?st = Some 1000" "(1000::real) \<le> 1200"
      "0 < scrollDuration scenarioProps"
    by (simp_all add: startScrollAnimation_def animateScroll_def initial_def truthy_def)
  have e: "scrollToCalls ?st = []" "scrollOffsetFinal ?st = 90"
      "scrollDuration scenarioProps \<le> 1200 - 1000"
    by (simp_all add: startScrollAnimation_def animateScroll_def initial_def truthy_def)
  from frame_offset [OF h] obtain v st' where
      r: "frameCallback scenarioProps 1200 ?st = Inr st'"
         "scrollToCalls st' = scrollToCalls ?st @ [Fin v]"
         "scrollDuration scenarioProps \<le> 1200 - 1000 \<longrightarrow>
            v = min (maxListOffset scenarioProps) (scrollOffsetFinal ?st)"
    by blast
  from r(3) e m have "v = 65" by simp
  with r(1,2) e(1) have "\<exists>st'. frameCallback scenarioProps 1200 ?st = Inr st'
      \<and> scrollToCalls st' = [Fin 65]" by simp
  with h e show ?thesis by simp
qed

theorem frame_offset_counterexample:
  "scrollToCalls
     (run (scenarioProps\<lparr>scrollDuration := - 200\<rparr>) scenarioIndex
        [ScrollToId (Some ''d'') 1000, Frame 1100] mounted)
     = [Fin (- 45)]
   \<and> \<not> finiteWithin 0 (maxListOffset scenarioProps) (Fin (- 45))
   \<and> scrollToCalls
     (run scenarioProps scenarioIndex
        [Scroll Backward (- 10) False, ScrollToId (Some ''d'') 1000, Frame 1050] mounted)
     = [Fin (- (135 / 16))]
   \<and> \<not> finiteWithin 0 (maxListOffset scenarioProps) (Fin (- (135 / 16)))"
  by (simp add: getNormalizedItems_def getMaxOffset_def totalContentHeight_def
      initial_def onScrollCB_def scrollToIdEffect_def startScrollAnimation_def
      animateScroll_def truthy_def runFrame_def frameCallback_def Let_def
      ellapsed_def to_number_def js_sub_def frameOffset_def easeInOutQuint_Fin quint_def
      onAnimationComplete_def power_divide)

section \<open>A user scroll during an animation\<close>

lemma onScrollCB_user:
  "onScrollCB p d off False st =
     (if onScroll p
      then st\<lparr>scrollTop := off, scrollOffsetInitial := off,
              onScrollCalls := onScrollCalls st @ [(d, off, False)]\<rparr>
      else st\<lparr>scrollTop := off, scrollOffsetInitial := off\<rparr>)"
  by (simp add: onScrollCB_def Let_def)

text \<open>
  C2, as amended. A scroll event that was not requested sets \<open>scrollOffsetInitial\<close> (and
  the recorded scroll top) to the reported offset and neither starts nor stops an
  animation: \<open>scrollOffsetFinal\<close>, \<open>animationStartTime\<close>, the pending frames, the setter's
  calls so far and the elapsed time of every later frame are what they were. Later frames
  read the new \<open>scrollOffsetInitial\<close>: with a positive duration they interpolate from the
  reported offset, and the frame where \<open>ellapsed \<ge> scrollDuration\<close> still computes
  \<open>scrollOffsetFinal\<close>.
\<close>

theorem user_scroll_during_animation:
  "scrollOffsetInitial (onScrollCB p d off False st) = off
   \<and> scrollTop (onScrollCB p d off False st) = off
   \<and> scrollOffsetFinal (onScrollCB p d off False st) = scrollOffsetFinal st
   \<and> animationStartTime (onScrollCB p d off False st) = animationStartTime st
   \<and> pendingFrames (onScrollCB p d off False st) = pendingFrames st
   \<and> scrollToCalls (onScrollCB p d off False st) = scrollToCalls st
   \<and> onScrollToFinishedCalls (onScrollCB p d off False st) = onScrollToFinishedCalls st
   \<and> listRef (onScrollCB p d off False st) = listRef st
   \<and> ellapsed now (onScrollCB p d off False st) = ellapsed now st
   \<and> (animationStartTime st = Some s \<and> 0 < scrollDuration p \<longrightarrow>
        frameOffset p now (onScrollCB p d off False st) =
          Fin (off + (scrollOffsetFinal st - off) * quint (min 1 ((now - s) / scrollDuration p))))
   \<and> (animationStartTime st = Some s \<and> 0 < scrollDuration p \<and> scrollDuration p \<le> now - s \<longrightarrow>
        frameOffset p now (onScrollCB p d off False st) = Fin (scrollOffsetFinal st)
      \<and> frameOffset p now st = Fin (scrollOffsetFinal st))"
proof -
  have fields: "scrollOffsetInitial (onScrollCB p d off False st) = off"
      "scrollTop (onScrollCB p d off False st) = off"
      "scrollOffsetFinal (onScrollCB p d off False st) = scrollOffsetFinal st"
      "animationStartTime (onScrollCB p d off False st) = animationStartTime st"
      "pendingFrames (onScrollCB p d off False st) = pendingFrames st"
      "scrollToCalls (onScrollCB p d off False st) = scrollToCalls st"
      "onScrollToFinishedCalls (onScrollCB p d off False st) = onScrollToFinishedCalls st"
      "listRef (onScrollCB p d off False st) = listRef st"
    by (simp_all add: onScrollCB_user)
  have el: "ellapsed now (onScrollCB p d off False st) = ellapsed now st"
    by (simp add: ellapsed_def fields)
  have mid: "frameOffset p now (onScrollCB p d off False st) =
      Fin (off + (scrollOffsetFinal st - off) * quint (min 1 ((now - s) / scrollDuration p)))"
    if "animationStartTime st = Some s \<and> 0 < scrollDuration p"
    using that frameOffset_Fin [of "onScrollCB p d off False st" s p now]
    by (simp add: fields)
  have fin: "frameOffset p now (onScrollCB p d off False st) = Fin (scrollOffsetFinal st)
      \<and> frameOffset p now st = Fin (scrollOffsetFinal st)"
    if h: "animationStartTime st = Some s \<and> 0 < scrollDuration p \<and> scrollDuration p \<le> now - s"
  proof -
    have "min 1 ((now - s) / scrollDuration p) = 1"
      using h by (simp add: min_def)
    then show ?thesis
      using h mid frameOffset_Fin [of st s p now] by (simp add: quint_1)
  qed
  from fields el mid fin show ?thesis by blast
qed

theorem user_scroll_during_animation_witness:
  "animationStartTime
     (run scenarioProps scenarioIndex [ScrollToId (Some ''d'') 1000, Frame 1050] mounted) = Some 1000
   \<and> 0 < scrollDuration scenarioProps
   \<and> scrollDuration scenarioProps \<le> 1200 - 1000
   \<and> frameOffset scenarioProps 1100
       (onScrollCB scenarioProps Forward 40 False
          (run scenarioProps scenarioIndex [ScrollToId (Some ''d'') 1000, Frame 1050] mounted))
     = Fin 65
   \<and> frameOffset scenarioProps 1200
       (onScrollCB scenarioProps Forward 40 False
          (run scenarioProps scenarioIndex [ScrollToId (Some ''d'') 1000, Frame 1050] mounted))
     = Fin 90"
proof -
  let ?st = "run scenarioProps scenarioIndex [ScrollToId (Some ''d'') 1000, Frame 1050] mounted"
  have h: "animationStartTime ?st = Some 1000" "scrollOffsetFinal ?st = 90"
    by (simp_all add: getNormalizedItems_def initial_def scrollToIdEffect_def
        startScrollAnimation_def animateScroll_def truthy_def runFrame_def frameCallback_def
        Let_def ellapsed_def to_number_def js_sub_def)
  have d: "0 < scrollDuration scenarioProps" "scrollDuration scenarioProps \<le> 1200 - 1000"
    by simp_all
  have a: "frameOffset scenarioProps 1100 (onScrollCB scenarioProps Forward 40 False ?st) = Fin 65"
    using user_scroll_during_animation [of scenarioProps Forward 40 ?st 1100 1000] h d
    by (simp add: quint_def)
  have b: "frameOffset scenarioProps 1200 (onScrollCB scenarioProps Forward 40 False ?st) = Fin 90"
    using user_scroll_during_animation [of scenarioProps Forward 40 ?st 1200 1000] h d
    by (simp add: quint_1)
  from h(1) d a b show ?thesis by blast
qed

theorem user_scroll_during_animation_counterexample:
  "scrollToCalls
     (run scenarioProps scenarioIndex
        [ScrollToId (Some ''d'') 1000, Frame 1050, Scroll Forward 40 False, Frame 1100] mounted)
     = [Fin (45 / 32), Fin 65]
   \<and> scrollToCalls
     (run scenarioProps scenarioIndex
        [ScrollToId (Some ''d'') 1000, Frame 1050, Frame 1100] mounted)
     = [Fin (45 / 32), Fin 45]
   \<and> scrollToCalls
     (run scenarioProps scenarioIndex
        [ScrollToId (Some ''d'') 1000, Frame 1050, Scroll Forward 40 False, Frame 1100] mounted)
     \<noteq> scrollToCalls
     (run scenarioProps scenarioIndex
        [ScrollToId (Some ''d'') 1000, Frame 1050, Frame 1100] mounted)"
  by (simp add: getNormalizedItems_def getMaxOffset_def totalContentHeight_def
      initial_def onScrollCB_def scrollToIdEffect_def startScrollAnimation_def
      animateScroll_def truthy_def runFrame_def frameCallback_def Let_def
      ellapsed_def to_number_def js_sub_def frameOffset_def easeInOutQuint_Fin quint_def
      power_divide)

section \<open>A duration that is not positive\<close>

lemma quint_nonpos: "t \<le> 0 \<Longrightarrow> quint t = 16 * t ^ 5"
  by (simp add: quint_def)

lemma frameOffset_negative_duration:
  assumes "animationStartTime st = Some s" and "scrollDuration p < 0" and "s \<le> now"
  shows "frameOffset p now st =
     Fin (scrollOffsetInitial st + (scrollOffsetFinal st - scrollOffsetInitial st) *
        (16 * ((now - s) / scrollDuration p) ^ 5))"
proof -
  have "(now - s) / scrollDuration p \<le> 0"
    using assms(2,3) by (simp add: divide_nonneg_neg)
  then have "min 1 ((now - s) / scrollDuration p) = (now - s) / scrollDuration p"
    and "quint ((now - s) / scrollDuration p) = 16 * ((now - s) / scrollDuration p) ^ 5"
    by (simp_all add: quint_nonpos)
  then show ?thesis
    using assms(1,2) by (simp add: frameOffset_Fin)
qed

text \<open>
  C8, as amended. With a \<open>scrollDuration\<close> that is zero or negative, the first frame of an
  animation (the clock not having gone back) ends it in one step and throws nothing: no
  frame stays pending, \<open>animationStartTime\<close> is cleared, \<open>scrollOffsetInitial\<close> becomes
  \<open>scrollOffsetFinal\<close> and the completion callback runs. The setter receives
  \<open>min(maxListOffset, scrollOffsetFinal)\<close> when the duration is zero and time has passed;
  \<open>NaN\<close> when the duration is zero and no time has passed (\<open>0 / 0\<close>); and, when the
  duration is negative, the offset eased at the non-positive progress
  \<open>ellapsed / scrollDuration\<close>, which lies at the baseline or beyond it on the side away
  from the target.
\<close>

theorem nonpositive_duration:
  assumes "listRef st" and "animationStartTime st = Some s" and "s \<le> now"
    and "scrollDuration p \<le> 0" and "pendingFrames st = 1"
  shows "(\<exists>st'. frameCallback p now (st\<lparr>pendingFrames := 0\<rparr>) = Inr st' \<and> runFrame p now st = st')
     \<and> pendingFrames (runFrame p now st) = 0
     \<and> animationStartTime (runFrame p now st) = None
     \<and> scrollOffsetInitial (runFrame p now st) = scrollOffsetFinal st
     \<and> scrollOffsetFinal (runFrame p now st) = scrollOffsetFinal st
     \<and> onScrollToFinishedCalls (runFrame p now st) =
         (if onScrollToFinished p then Suc (onScrollToFinishedCalls st)
          else onScrollToFinishedCalls st)
     \<and> scrollToCalls (runFrame p now st) = scrollToCalls st @
         [if scrollDuration p = 0
          then (if s < now then Fin (min (maxListOffset p) (scrollOffsetFinal st)) else NaN)
          else Fin (min (maxListOffset p)
                 (scrollOffsetInitial st + (scrollOffsetFinal st - scrollOffsetInitial st) *
                    (16 * ((now - s) / scrollDuration p) ^ 5)))]"
proof -
  have late: "scrollDuration p \<le> now - s"
    using assms(3,4) by linarith
  have run: "runFrame p now st =
     onAnimationComplete p
       (st\<lparr>scrollToCalls :=
            scrollToCalls st @ [js_min (Fin (maxListOffset p)) (frameOffset p now st)],
          animationStartTime := None,
          scrollOffsetInitial := scrollOffsetFinal st,
          pendingFrames := pendingFrames st - 1\<rparr>)"
    using assms(1,2) late assms(5) by (intro runFrame_complete) auto
  have cb: "\<exists>st'. frameCallback p now (st\<lparr>pendingFrames := 0\<rparr>) = Inr st' \<and> runFrame p now st = st'"
    using assms(1,5) by (simp add: runFrame_def Let_def frameCallback_def)
  have arg: "js_min (Fin (maxListOffset p)) (frameOffset p now st) =
      (if scrollDuration p = 0
       then (if s < now then Fin (min (maxListOffset p) (scrollOffsetFinal st)) else NaN)
       else Fin (min (maxListOffset p)
              (scrollOffsetInitial st + (scrollOffsetFinal st - scrollOffsetInitial st) *
                 (16 * ((now - s) / scrollDuration p) ^ 5))))"
  proof (cases "scrollDuration p = 0")
    case True
    then show ?thesis
      using assms(2,3) by (simp add: frameOffset_zero_duration)
  next
    case False
    then have "scrollDuration p < 0" using assms(4) by simp
    then show ?thesis
      using assms(2,3) False by (simp add: frameOffset_negative_duration)
  qed
  have fields: "pendingFrames (runFrame p now st) = 0"
      "animationStartTime (runFrame p now st) = None"
      "scrollOffsetInitial (runFrame p now st) = scrollOffsetFinal st"
      "scrollOffsetFinal (runFrame p now st) = scrollOffsetFinal st"
      "onScrollToFinishedCalls (runFrame p now st) =
         (if onScrollToFinished p then Suc (onScrollToFinishedCalls st)
          else onScrollToFinishedCalls st)"
    using assms(5) by (simp_all add: run onAnimationComplete_def)
  have calls: "scrollToCalls (runFrame p now st) =
      scrollToCalls st @ [js_min (Fin (maxListOffset p)) (frameOffset p now st)]"
    by (simp add: run onAnimationComplete_def)
  from cb fields calls arg show ?thesis by (simp only:)
qed

theorem nonpositive_duration_witness:
  "listRef (scrollToIdEffect scenarioIndex (Some ''d'') 1000 mounted)
   \<and> (1000::real) \<le> 1016
   \<and> scrollDuration (scenarioProps\<lparr>scrollDuration := 0\<rparr>) \<le> 0
   \<and> pendingFrames (scrollToIdEffect scenarioIndex (Some ''d'') 1000 mounted) = 1
   \<and> scrollToCalls
       (runFrame (scenarioProps\<lparr>scrollDuration := 0\<rparr>) 1016
          (scrollToIdEffect scenarioIndex (Some ''d'') 1000 mounted)) = [Fin 65]
   \<and> pendingFrames
       (runFrame (scenarioProps\<lparr>scrollDuration := 0\<rparr>) 1016
          (scrollToIdEffect scenarioIndex (Some ''d'') 1000 mounted)) = 0"
proof -
  let ?st = "scrollToIdEffect scenarioIndex (Some ''d'') 1000 mounted"
  let ?p = "scenarioProps\<lparr>scrollDuration := 0\<rparr>"
  have h: "listRef ?st" "animationStartTime ?st = Some 1000" "(1000::real) \<le> 1016"
      "scrollDuration ?p \<le> 0" "pendingFrames ?st = 1"
    by (simp_all add: getNormalizedItems_def initial_def scrollToIdEffect_def
        startScrollAnimation_def animateScroll_def truthy_def)
  have e: "scrollToCalls ?st = []" "scrollOffsetFinal ?st = 90" "maxListOffset ?p = 65"
    by (simp_all add: getNormalizedItems_def initial_def scrollToIdEffect_def
        startScrollAnimation_def animateScroll_def truthy_def getMaxOffset_def
        totalContentHeight_def)
  from nonpositive_duration [OF h]
  have "pendingFrames (runFrame ?p 1016 ?st) = 0"
    and "scrollToCalls (runFrame ?p 1016 ?st) = scrollToCalls ?st @
         [if scrollDuration ?p = 0
          then (if (1000::real) < 1016 then Fin (min (maxListOffset ?p) (scrollOffsetFinal ?st)) else NaN)
          else Fin (min (maxListOffset ?p)
                 (scrollOffsetInitial ?st + (scrollOffsetFinal ?st - scrollOffsetInitial ?st) *
                    (16 * ((1016 - 1000) / scrollDuration ?p) ^ 5)))]"
    by blast+
  then have "pendingFrames (runFrame ?p 1016 ?st) = 0"
    and "scrollToCalls (runFrame ?p 1016 ?st) = [Fin 65]"
    using e by simp_all
  with h show ?thesis by simp
qed

theorem nonpositive_duration_counterexample:
  "scrollToCalls
     (run (scenarioProps\<lparr>scrollDuration := - 100\<rparr>) scenarioIndex
        [ScrollToId (Some ''d'') 1000, Frame 1050] mounted)
     = [Fin (- 45)]
   \<and> pendingFrames
     (run (scenarioProps\<lparr>scrollDuration := - 100\<rparr>) scenarioIndex
        [ScrollToId (Some ''d'') 1000, Frame 1050] mounted) = 0
   \<and> Fin (- 45) \<noteq> Fin (min (maxListOffset scenarioProps) 90)"
  by (simp add: getNormalizedItems_def getMaxOffset_def totalContentHeight_def
      initial_def scrollToIdEffect_def startScrollAnimation_def
      animateScroll_def truthy_def runFrame_def frameCallback_def Let_def
      ellapsed_def to_number_def js_sub_def frameOffset_def easeInOutQuint_Fin quint_def
      onAnimationComplete_def power_divide)

section \<open>Starting an animation\<close>

lemma startScrollAnimation_guard:
  "truthy (animationStartTime st) \<or> scrollOffsetFinal st = offsetTop it \<Longrightarrow>
   startScrollAnimation now it st = st"
  by (simp add: startScrollAnimation_def)

lemma startScrollAnimation_starts:
  "\<not> truthy (animationStartTime st) \<Longrightarrow> scrollOffsetFinal st \<noteq> offsetTop it \<Longrightarrow>
   startScrollAnimation now it st =
     st\<lparr>scrollOffsetFinal := offsetTop it, animationStartTime := Some now,
        pendingFrames := Suc (pendingFrames st)\<rparr>"
  by (simp add: startScrollAnimation_def animateScroll_def)

lemma run_append: "run p idx (es @ fs) st = run p idx fs (run p idx es st)"
  by (induction es arbitrary: st) simp_all

text \<open>No event but a \<open>scrollToId\<close> effect writes \<open>scrollOffsetFinal\<close>.\<close>

lemma runFrame_final: "scrollOffsetFinal (runFrame p now st) = scrollOffsetFinal st"
  by (simp add: runFrame_def frameCallback_def onAnimationComplete_def Let_def)

lemma step_final:
  "\<not> isScrollToId e \<Longrightarrow> scrollOffsetFinal (step p idx e st) = scrollOffsetFinal st"
  by (cases e) (simp_all add: runFrame_final onScrollCB_def Let_def)

lemma run_final:
  "\<forall>e \<in> set es. \<not> isScrollToId e \<Longrightarrow>
   scrollOffsetFinal (run p idx es st) = scrollOffsetFinal st"
  by (induction es arbitrary: st) (simp_all add: step_final)

text \<open>
  At most one frame is pending, and one is pending only while \<open>animationStartTime\<close> is
  truthy: every event keeps this, provided the clock does not read zero when an animation
  starts (zero is the idle value the refs are created with).
\<close>

lemma runFrame_single:
  assumes "pendingFrames st \<le> 1" and "pendingFrames st = 1 \<longrightarrow> truthy (animationStartTime st)"
  shows "pendingFrames (runFrame p now st) \<le> 1
     \<and> (pendingFrames (runFrame p now st) = 1 \<longrightarrow> truthy (animationStartTime (runFrame p now st)))"
proof (cases "pendingFrames st = 0")
  case True
  then show ?thesis by (simp add: runFrame_idle)
next
  case False
  then have one: "pendingFrames st = 1" using assms(1) by simp
  then show ?thesis
    using assms(2)
    by (simp add: runFrame_def frameCallback_def onAnimationComplete_def Let_def)
qed

lemma step_single:
  assumes "pendingFrames st \<le> 1" and "pendingFrames st = 1 \<longrightarrow> truthy (animationStartTime st)"
    and "clockNonzero e"
  shows "pendingFrames (step p idx e st) \<le> 1
     \<and> (pendingFrames (step p idx e st) = 1 \<longrightarrow> truthy (animationStartTime (step p idx e st)))"
proof (cases e)
  case (ScrollToId i now)
  have nz: "now \<noteq> 0" using assms(3) ScrollToId by simp
  have start: "pendingFrames (startScrollAnimation now it st) \<le> 1
     \<and> (pendingFrames (startScrollAnimation now it st) = 1 \<longrightarrow>
          truthy (animationStartTime (startScrollAnimation now it st)))" for it :: "'a normalizedEntry"
  proof (cases "truthy (animationStartTime st) \<or> scrollOffsetFinal st = offsetTop it")
    case True
    then show ?thesis using assms(1,2) by (simp add: startScrollAnimation_guard)
  next
    case False
    then have "pendingFrames st = 0" using assms(1,2) by auto
    then show ?thesis
      using False nz by (simp add: startScrollAnimation_starts truthy_def)
  qed
  show ?thesis
    using ScrollToId assms(1,2) start
    by (simp add: scrollToIdEffect_def split: option.splits)
next
  case (Frame now)
  then show ?thesis using runFrame_single [OF assms(1,2)] by simp
next
  case (Scroll d off req)
  then show ?thesis using assms(1,2) by (simp add: onScrollCB_def Let_def)
next
  case (ListRef b)
  then show ?thesis using assms(1,2) by simp
qed

lemma run_single:
  assumes "pendingFrames st \<le> 1" and "pendingFrames st = 1 \<longrightarrow> truthy (animationStartTime st)"
    and "\<forall>e \<in> set es. clockNonzero e"
  shows "pendingFrames (run p idx es st) \<le> 1
     \<and> (pendingFrames (run p idx es st) = 1 \<longrightarrow> truthy (animationStartTime (run p idx es st)))"
  using assms
proof (induction es arbitrary: st)
  case Nil
  then show ?case by simp
next
  case (Cons e es)
  have "clockNonzero e" using Cons.prems(3) by simp
  from step_single [OF Cons.prems(1,2) this, of p idx]
  have "pendingFrames (step p idx e st) \<le> 1"
    and "pendingFrames (step p idx e st) = 1 \<longrightarrow> truthy (animationStartTime (step p idx e st))"
    by simp_all
  from Cons.IH [OF this] Cons.prems(3) show ?case by simp
qed

text \<open>
  What the guard of line 92 does ensure. In every state where \<open>animationStartTime\<close> is
  truthy or the requested item's \<open>offsetTop\<close> equals the recorded \<open>scrollOffsetFinal\<close>,
  starting a scroll animation, and so the \<open>scrollToId\<close> effect, changes nothing. As long
  as the clock never reads zero when an animation starts, at most one frame loop is
  pending in every state an instance reaches. Once a request for an item has started an
  animation, a second request for the same item, after any frames and scroll events,
  starts none.
\<close>

lemma scroll_guard:
  "(truthy (animationStartTime st) \<or> scrollOffsetFinal st = offsetTop it \<longrightarrow>
      startScrollAnimation now it st = st
    \<and> (map_of idx i = Some it \<longrightarrow> scrollToIdEffect idx (Some i) now st = st))
   \<and> ((\<forall>e \<in> set es. clockNonzero e) \<longrightarrow> pendingFrames (run p idx es initial) \<le> 1)
   \<and> (\<not> truthy (animationStartTime st) \<and> scrollOffsetFinal st \<noteq> offsetTop it
      \<and> listRef st \<and> i \<noteq> [] \<and> map_of idx i = Some it
      \<and> (\<forall>e \<in> set fs. \<not> isScrollToId e) \<longrightarrow>
        pendingFrames (scrollToIdEffect idx (Some i) now st) = Suc (pendingFrames st)
      \<and> scrollToIdEffect idx (Some i) now' (run p idx fs (scrollToIdEffect idx (Some i) now st))
          = run p idx fs (scrollToIdEffect idx (Some i) now st))"
proof -
  have guard: "startScrollAnimation now it st = st
      \<and> (map_of idx i = Some it \<longrightarrow> scrollToIdEffect idx (Some i) now st = st)"
    if "truthy (animationStartTime st) \<or> scrollOffsetFinal st = offsetTop it"
    using that by (simp add: scrollToIdEffect_def startScrollAnimation_guard)
  have single: "pendingFrames (run p idx es initial) \<le> 1"
    if "\<forall>e \<in> set es. clockNonzero e"
  proof -
    have "pendingFrames initial \<le> 1"
      and "pendingFrames initial = 1 \<longrightarrow> truthy (animationStartTime initial)"
      by (simp_all add: initial_def)
    from run_single [OF this that, of p idx] show ?thesis by simp
  qed
  have twice: "pendingFrames (scrollToIdEffect idx (Some i) now st) = Suc (pendingFrames st)
      \<and> scrollToIdEffect idx (Some i) now' (run p idx fs (scrollToIdEffect idx (Some i) now st))
          = run p idx fs (scrollToIdEffect idx (Some i) now st)"
    if h: "\<not> truthy (animationStartTime st) \<and> scrollOffsetFinal st \<noteq> offsetTop it
      \<and> listRef st \<and> i \<noteq> [] \<and> map_of idx i = Some it
      \<and> (\<forall>e \<in> set fs. \<not> isScrollToId e)"
  proof -
    let ?st1 = "scrollToIdEffect idx (Some i) now st"
    have st1: "?st1 = st\<lparr>scrollOffsetFinal := offsetTop it, animationStartTime := Some now,
        pendingFrames := Suc (pendingFrames st)\<rparr>"
      using h by (simp add: scrollToIdEffect_def startScrollAnimation_starts)
    have "scrollOffsetFinal (run p idx fs ?st1) = scrollOffsetFinal ?st1"
      using h by (intro run_final) simp
    then have "scrollOffsetFinal (run p idx fs ?st1) = offsetTop it"
      by (simp add: st1)
    then have "scrollToIdEffect idx (Some i) now' (run p idx fs ?st1) = run p idx fs ?st1"
      using h by (simp add: scrollToIdEffect_def startScrollAnimation_guard)
    then show ?thesis by (simp add: st1)
  qed
  from guard single twice show ?thesis by blast
qed

lemma scroll_guard_instance:
  "truthy (animationStartTime (scrollToIdEffect scenarioIndex (Some ''d'') 1000 mounted))
   \<and> map_of scenarioIndex ''c'' =
       Some \<lparr>item = (''c'', 40), index = 2, height = 40, offsetTop = 50\<rparr>
   \<and> scrollToIdEffect scenarioIndex (Some ''c'') 1010
       (scrollToIdEffect scenarioIndex (Some ''d'') 1000 mounted)
     = scrollToIdEffect scenarioIndex (Some ''d'') 1000 mounted
   \<and> pendingFrames
       (run scenarioProps scenarioIndex
          [ListRef True, ScrollToId (Some ''d'') 1000, ScrollToId (Some ''c'') 1010, Frame 1016]
          initial) \<le> 1
   \<and> pendingFrames
       (run scenarioProps scenarioIndex
          [ListRef True, ScrollToId (Some ''d'') 1000, ScrollToId (Some ''c'') 1010, Frame 1016]
          initial) = 1
   \<and> \<not> truthy (animationStartTime mounted)
   \<and> pendingFrames (scrollToIdEffect scenarioIndex (Some ''d'') 1000 mounted) = 1
   \<and> scrollToIdEffect scenarioIndex (Some ''d'') 1020
       (run scenarioProps scenarioIndex [Frame 1016, Scroll Forward 1 True]
          (scrollToIdEffect scenarioIndex (Some ''d'') 1000 mounted))
     = run scenarioProps scenarioIndex [Frame 1016, Scroll Forward 1 True]
          (scrollToIdEffect scenarioIndex (Some ''d'') 1000 mounted)"
proof -
  let ?st = "scrollToIdEffect scenarioIndex (Some ''d'') 1000 mounted"
  let ?c = "\<lparr>item = (''c'', 40::real), index = 2, height = 40, offsetTop = 50\<rparr>"
  let ?d = "\<lparr>item = (''d'', 10::real), index = 3, height = 10, offsetTop = 90\<rparr>"
  let ?es = "[ListRef True, ScrollToId (Some ''d'') 1000, ScrollToId (Some ''c'') 1010, Frame 1016]"
  let ?fs = "[Frame 1016, Scroll Forward 1 True]"
  have t: "truthy (animationStartTime ?st)"
    by (simp add: getNormalizedItems_def initial_def scrollToIdEffect_def
        startScrollAnimation_def animateScroll_def truthy_def)
  have m: "map_of scenarioIndex ''c'' = Some ?c" "map_of scenarioIndex ''d'' = Some ?d"
    by (simp_all add: getNormalizedItems_def)
  have c: "\<forall>e \<in> set ?es. clockNonzero e"
    by simp
  from scroll_guard [of ?st ?c 1010 scenarioIndex "''c''" ?es scenarioProps] t m(1) c
  have a: "scrollToIdEffect scenarioIndex (Some ''c'') 1010 ?st = ?st"
    and b: "pendingFrames (run scenarioProps scenarioIndex ?es initial) \<le> 1"
    by blast+
  have b': "pendingFrames (run scenarioProps scenarioIndex ?es initial) = 1"
    by (simp add: getNormalizedItems_def initial_def scrollToIdEffect_def
        startScrollAnimation_def animateScroll_def truthy_def runFrame_def frameCallback_def
        Let_def ellapsed_def to_number_def js_sub_def)
  have idle: "\<not> truthy (animationStartTime mounted)" "scrollOffsetFinal mounted \<noteq> offsetTop ?d"
      "listRef mounted" "pendingFrames mounted = 0" "\<forall>e \<in> set ?fs. \<not> isScrollToId e"
    by (simp_all add: initial_def truthy_def)
  from scroll_guard [of mounted ?d 1000 scenarioIndex "''d''" "[]" scenarioProps ?fs 1020]
    idle m(2)
  have "pendingFrames ?st = Suc (pendingFrames mounted)"
    and r: "scrollToIdEffect scenarioIndex (Some ''d'') 1020 (run scenarioProps scenarioIndex ?fs ?st)
        = run scenarioProps scenarioIndex ?fs ?st"
    by simp_all
  then have "pendingFrames ?st = 1"
    using idle(4) by simp
  with t m(1) a b b' idle(1) r show ?thesis by blast
qed

text \<open>
  C3. The claim: a \<open>scrollToId\<close> request is a no-op while an animation is in flight, so at
  most one animation runs at a time. The code misses a case. The guard of line 92 tests the
  truthiness of \<open>animationStartTime\<close>, whose idle value at creation is 0 (line 40); an
  animation started while \<open>performance.now()\<close> reads 0 stores a falsy start time (line 98)
  and is not seen as in flight. On a mounted list, a request for item d at clock 0 followed
  by a request for item c at clock 10 leaves two frame loops pending; the two frames that
  follow both take the completing branch, the second with \<open>animationStartTime\<close> already
  undefined, so the setter receives 50 and then \<open>NaN\<close> and the completion callback runs
  twice.
\<close>

theorem guard_misses_start_at_clock_zero:
  "animationStartTime
     (run scenarioProps scenarioIndex [ListRef True, ScrollToId (Some ''d'') 0] initial) = Some 0
   \<and> pendingFrames
     (run scenarioProps scenarioIndex [ListRef True, ScrollToId (Some ''d'') 0] initial) = 1
   \<and> pendingFrames
     (run scenarioProps scenarioIndex
        [ListRef True, ScrollToId (Some ''d'') 0, ScrollToId (Some ''c'') 10] initial) = 2
   \<and> scrollOffsetFinal
     (run scenarioProps scenarioIndex
        [ListRef True, ScrollToId (Some ''d'') 0, ScrollToId (Some ''c'') 10] initial) = 50
   \<and> scrollToCalls
     (run scenarioProps scenarioIndex
        [ListRef True, ScrollToId (Some ''d'') 0, ScrollToId (Some ''c'') 10,
         Frame 300, Frame 316] initial) = [Fin 50, NaN]
   \<and> onScrollToFinishedCalls
     (run scenarioProps scenarioIndex
        [ListRef True, ScrollToId (Some ''d'') 0, ScrollToId (Some ''c'') 10,
         Frame 300, Frame 316] initial) = 2"
  by (simp add: getNormalizedItems_def getMaxOffset_def totalContentHeight_def
      initial_def scrollToIdEffect_def startScrollAnimation_def
      animateScroll_def truthy_def runFrame_def frameCallback_def Let_def
      ellapsed_def to_number_def js_sub_def frameOffset_def easeInOutQuint_Fin
      easeInOutQuint_NaN quint_def onAnimationComplete_def)

section \<open>Normalised items\<close>

lemma update_fresh: "k \<notin> fst ` set al \<Longrightarrow> AList.update k v al = al @ [(k, v)]"
  by (induction al) auto

text \<open>
  With identifiers that are distinct and not yet in the accumulator, the pass appends
  one entry per item, in order, each with the running offset reached before it.
\<close>

lemma normalize_pass_closed:
  "distinct (map fst acc @ map (\<lambda>j. getId (xs ! j) (i + j)) [0..<length xs]) \<Longrightarrow>
   normalize_pass getId getHeight xs i running acc =
     acc @ map (\<lambda>j. (getId (xs ! j) (i + j),
                    \<lparr>item = xs ! j, index = i + j, height = getHeight (xs ! j) (i + j),
                     offsetTop = running + (\<Sum>k<j. getHeight (xs ! k) (i + k))\<rparr>))
             [0..<length xs]"
proof (induction xs arbitrary: i running acc)
  case Nil
  then show ?case by simp
next
  case (Cons x xs)
  let ?e = "\<lparr>item = x, index = i, height = getHeight x i, offsetTop = running\<rparr>"
  have split: "[0..<length (x # xs)] = 0 # map Suc [0..<length xs]"
    by (simp add: upt_conv_Cons map_Suc_upt del: upt_Suc)
  have d: "distinct (map fst acc @ getId x i # map (\<lambda>j. getId (xs ! j) (Suc i + j)) [0..<length xs])"
    using Cons.prems unfolding split by (simp add: comp_def)
  then have fresh: "getId x i \<notin> fst ` set acc"
    by auto
  have d': "distinct (map fst (acc @ [(getId x i, ?e)]) @
      map (\<lambda>j. getId (xs ! j) (Suc i + j)) [0..<length xs])"
    using d by simp
  have "normalize_pass getId getHeight (x # xs) i running acc =
      normalize_pass getId getHeight xs (Suc i) (running + getHeight x i) (acc @ [(getId x i, ?e)])"
    using fresh by (simp add: update_fresh)
  also have "\<dots> = (acc @ [(getId x i, ?e)]) @
      map (\<lambda>j. (getId (xs ! j) (Suc i + j),
                \<lparr>item = xs ! j, index = Suc i + j, height = getHeight (xs ! j) (Suc i + j),
                 offsetTop = running + getHeight x i + (\<Sum>k<j. getHeight (xs ! k) (Suc i + k))\<rparr>))
          [0..<length xs]"
    by (rule Cons.IH [OF d'])
  also have "\<dots> = acc @ map (\<lambda>j. (getId ((x # xs) ! j) (i + j),
                    \<lparr>item = (x # xs) ! j, index = i + j,
                     height = getHeight ((x # xs) ! j) (i + j),
                     offsetTop = running + (\<Sum>k<j. getHeight ((x # xs) ! k) (i + k))\<rparr>))
             [0..<length (x # xs)]"
    unfolding split by (simp add: comp_def sum.lessThan_Suc_shift add.assoc del: sum.lessThan_Suc)
  finally show ?case .
qed

lemma getNormalizedItems_closed:
  assumes "distinct (map (\<lambda>j. getId (items ! j) j) [0..<length items])"
  shows "getNormalizedItems items getId getHeight =
     map (\<lambda>j. (getId (items ! j) j,
              \<lparr>item = items ! j, index = j, height = getHeight (items ! j) j,
               offsetTop = (\<Sum>k<j. getHeight (items ! k) k)\<rparr>))
         [0..<length items]"
  using assms normalize_pass_closed [of "[]" getId items 0 getHeight 0]
  by (simp add: getNormalizedItems_def)

lemma getNormalizedItems_keys:
  assumes "distinct (map (\<lambda>j. getId (items ! j) j) [0..<length items])"
  shows "map fst (getNormalizedItems items getId getHeight) =
     map (\<lambda>j. getId (items ! j) j) [0..<length items]"
  by (simp add: getNormalizedItems_closed [where getId = getId and items = items, OF assms] comp_def)

lemma getNormalizedItems_lookup:
  assumes "distinct (map (\<lambda>j. getId (items ! j) j) [0..<length items])" and "i < length items"
  shows "map_of (getNormalizedItems items getId getHeight) (getId (items ! i) i) =
     Some \<lparr>item = items ! i, index = i, height = getHeight (items ! i) i,
           offsetTop = (\<Sum>k<i. getHeight (items ! k) k)\<rparr>"
proof -
  have "distinct (map fst (getNormalizedItems items getId getHeight))"
    using assms(1) by (simp add: getNormalizedItems_keys)
  moreover have "(getId (items ! i) i,
      \<lparr>item = items ! i, index = i, height = getHeight (items ! i) i,
        offsetTop = (\<Sum>k<i. getHeight (items ! k) k)\<rparr>)
      \<in> set (getNormalizedItems items getId getHeight)"
    using assms(2) by (simp add: getNormalizedItems_closed [where getId = getId and items = items, OF assms(1)] image_iff) 
  ultimately show ?thesis by (simp add: map_of_eq_Some_iff)
qed

lemma totalContentHeight_nonempty:
  "idx \<noteq> [] \<Longrightarrow>
   totalContentHeight idx = offsetTop (snd (last idx)) + height (snd (last idx))"
  by (cases idx) (simp_all add: totalContentHeight_def)

lemma getNormalizedItems_total:
  assumes "distinct (map (\<lambda>j. getId (items ! j) j) [0..<length items])"
  shows "totalContentHeight (getNormalizedItems items getId getHeight) =
     (\<Sum>k<length items. getHeight (items ! k) k)"
proof (cases items rule: rev_cases)
  case Nil
  then show ?thesis by (simp add: getNormalizedItems_def totalContentHeight_def)
next
  case (snoc ys y)
  define f where "f = (\<lambda>j. (getId (items ! j) j,
      \<lparr>item = items ! j, index = j, height = getHeight (items ! j) j,
        offsetTop = (\<Sum>k<j. getHeight (items ! k) k)\<rparr>))"
  have c: "getNormalizedItems items getId getHeight = map f [0..<length items]"
    unfolding f_def by (rule getNormalizedItems_closed [where getId = getId and items = items, OF assms])
  have n: "length items = Suc (length ys)"
    using snoc by simp
  have "getNormalizedItems items getId getHeight = map f [0..<length ys] @ [f (length ys)]"
    unfolding c n by simp
  then have "getNormalizedItems items getId getHeight \<noteq> []"
    and "last (getNormalizedItems items getId getHeight) = f (length ys)"
    by simp_all
  then show ?thesis
    by (simp add: totalContentHeight_nonempty f_def n)
qed

text \<open>
  C5. For items with unique identifiers, the normalised index has exactly one entry per
  item, holding the item, its position and its height; the first item's \<open>offsetTop\<close> is 0
  and every other item's \<open>offsetTop\<close> is its predecessor's \<open>offsetTop\<close> plus its
  predecessor's height (so it is the sum of the heights before it). The input list is a
  value; nothing can change it.
\<close>

theorem normalize_offsets:
  assumes "distinct (map (\<lambda>j. getId (items ! j) j) [0..<length items])"
  shows "length (getNormalizedItems items getId getHeight) = length items
     \<and> card (dom (map_of (getNormalizedItems items getId getHeight))) = length items
     \<and> (\<forall>i<length items. \<exists>e.
          map_of (getNormalizedItems items getId getHeight) (getId (items ! i) i) = Some e
        \<and> item e = items ! i \<and> index e = i \<and> height e = getHeight (items ! i) i
        \<and> offsetTop e = (\<Sum>k<i. getHeight (items ! k) k))
     \<and> (0 < length items \<longrightarrow> (\<exists>e.
          map_of (getNormalizedItems items getId getHeight) (getId (items ! 0) 0) = Some e
        \<and> offsetTop e = 0))
     \<and> (\<forall>i. 0 < i \<and> i < length items \<longrightarrow> (\<exists>e e'.
          map_of (getNormalizedItems items getId getHeight) (getId (items ! i) i) = Some e
        \<and> map_of (getNormalizedItems items getId getHeight) (getId (items ! (i - 1)) (i - 1)) = Some e'
        \<and> offsetTop e = offsetTop e' + height e'))"
proof -
  let ?idx = "getNormalizedItems items getId getHeight"
  have keys: "map fst ?idx = map (\<lambda>j. getId (items ! j) j) [0..<length items]"
    by (rule getNormalizedItems_keys [where getId = getId and items = items, OF assms])
  have len: "length ?idx = length items"
    using arg_cong [OF keys, of length] by simp
  have d: "distinct (map fst ?idx)"
    using assms by (simp add: keys)
  have "card (dom (map_of ?idx)) = card (set (map fst ?idx))"
    by (simp add: dom_map_of_conv_image_fst)
  also have "\<dots> = length (map fst ?idx)"
    using d by (rule distinct_card)
  finally have card: "card (dom (map_of ?idx)) = length items"
    using len by simp
  note look = getNormalizedItems_lookup [where getId = getId and items = items and getHeight = getHeight, OF assms]
  have each: "\<forall>i<length items. \<exists>e.
          map_of ?idx (getId (items ! i) i) = Some e
        \<and> item e = items ! i \<and> index e = i \<and> height e = getHeight (items ! i) i
        \<and> offsetTop e = (\<Sum>k<i. getHeight (items ! k) k)"
    by (simp add: look)
  have first: "0 < length items \<longrightarrow> (\<exists>e.
          map_of ?idx (getId (items ! 0) 0) = Some e \<and> offsetTop e = 0)"
    by (simp add: look)
  have "\<exists>e e'. map_of ?idx (getId (items ! i) i) = Some e
        \<and> map_of ?idx (getId (items ! (i - 1)) (i - 1)) = Some e'
        \<and> offsetTop e = offsetTop e' + height e'"
    if h: "0 < i \<and> i < length items" for i
  proof -
    obtain j where i: "i = Suc j" using h by (cases i) auto
    then have "j < length items" using h by simp
    then show ?thesis
      using h by (simp add: look i)
  qed
  then have rest: "\<forall>i. 0 < i \<and> i < length items \<longrightarrow> (\<exists>e e'.
          map_of ?idx (getId (items ! i) i) = Some e
        \<and> map_of ?idx (getId (items ! (i - 1)) (i - 1)) = Some e'
        \<and> offsetTop e = offsetTop e' + height e')"
    by blast
  from len card each first rest show ?thesis by blast
qed

theorem normalize_offsets_witness:
  "distinct (map (\<lambda>j. fst (scenarioItems ! j)) [0..<length scenarioItems])
   \<and> length scenarioIndex = 5
   \<and> card (dom (map_of scenarioIndex)) = 5
   \<and> (\<exists>e. map_of scenarioIndex ''d'' = Some e \<and> item e = (''d'', 10) \<and> index e = 3
        \<and> height e = 10 \<and> offsetTop e = 90)"
proof -
  have d: "distinct (map (\<lambda>j. fst (scenarioItems ! j)) [0..<length scenarioItems])"
    by simp
  have n: "length scenarioItems = 5"
    by simp
  have s: "(\<Sum>k<Suc (Suc (Suc 0)). snd (scenarioItems ! k)) = 90"
    by simp
  note w = normalize_offsets [where getId = "\<lambda>x i. fst x" and items = scenarioItems
      and getHeight = "\<lambda>x i. snd x", OF d]
  from w have a: "length scenarioIndex = length scenarioItems"
    by (rule conjunct1)
  from w have b: "card (dom (map_of scenarioIndex)) = length scenarioItems"
    by (rule conjunct2 [THEN conjunct1])
  from w have "\<forall>i<length scenarioItems. \<exists>e.
          map_of scenarioIndex (fst (scenarioItems ! i)) = Some e
        \<and> item e = scenarioItems ! i \<and> index e = i \<and> height e = snd (scenarioItems ! i)
        \<and> offsetTop e = (\<Sum>k<i. snd (scenarioItems ! k))"
    by (rule conjunct2 [THEN conjunct2, THEN conjunct1])
  then have "Suc (Suc (Suc 0)) < length scenarioItems \<longrightarrow> (\<exists>e.
          map_of scenarioIndex (fst (scenarioItems ! Suc (Suc (Suc 0)))) = Some e
        \<and> item e = scenarioItems ! Suc (Suc (Suc 0)) \<and> index e = Suc (Suc (Suc 0))
        \<and> height e = snd (scenarioItems ! Suc (Suc (Suc 0)))
        \<and> offsetTop e = (\<Sum>k<Suc (Suc (Suc 0)). snd (scenarioItems ! k)))"
    by (rule spec)
  then have c: "\<exists>e. map_of scenarioIndex ''d'' = Some e \<and> item e = (''d'', 10) \<and> index e = 3
      \<and> height e = 10 \<and> offsetTop e = 90"
    unfolding s by (simp add: numeral_3_eq_3)
  from d a b c n show ?thesis by simp
qed

section \<open>The maximal offset\<close>

text \<open>
  C6. \<open>getMaxOffset\<close> is \<open>max(0, totalContentHeight - viewportHeight)\<close> and never negative;
  \<open>totalContentHeight\<close> is 0 for the empty index and otherwise the last entry's \<open>offsetTop\<close>
  plus its height, which for a normalised list of items with unique identifiers is the
  sum of all heights.
\<close>

theorem getMaxOffset_spec:
  "getMaxOffset offsetHeight idx = max 0 (totalContentHeight idx - offsetHeight)
   \<and> 0 \<le> getMaxOffset offsetHeight idx
   \<and> totalContentHeight ([] :: 'a normalizedIndex) = 0
   \<and> (idx \<noteq> [] \<longrightarrow>
        totalContentHeight idx = offsetTop (snd (last idx)) + height (snd (last idx)))
   \<and> (distinct (map (\<lambda>j. getId (items ! j) j) [0..<length items]) \<longrightarrow>
        totalContentHeight (getNormalizedItems items getId getHeight) =
          (\<Sum>k<length items. getHeight (items ! k) k)
      \<and> getMaxOffset offsetHeight (getNormalizedItems items getId getHeight) =
          max 0 ((\<Sum>k<length items. getHeight (items ! k) k) - offsetHeight))"
proof -
  have "getMaxOffset offsetHeight idx = max 0 (totalContentHeight idx - offsetHeight)"
    and "0 \<le> getMaxOffset offsetHeight idx"
    and "totalContentHeight ([] :: 'a normalizedIndex) = 0"
    by (simp_all add: getMaxOffset_def totalContentHeight_def)
  moreover have "idx \<noteq> [] \<longrightarrow>
        totalContentHeight idx = offsetTop (snd (last idx)) + height (snd (last idx))"
    by (simp add: totalContentHeight_nonempty)
  moreover have "totalContentHeight (getNormalizedItems items getId getHeight) =
          (\<Sum>k<length items. getHeight (items ! k) k)
      \<and> getMaxOffset offsetHeight (getNormalizedItems items getId getHeight) =
          max 0 ((\<Sum>k<length items. getHeight (items ! k) k) - offsetHeight)"
    if "distinct (map (\<lambda>j. getId (items ! j) j) [0..<length items])"
    using getNormalizedItems_total [where getId = getId and items = items
        and getHeight = getHeight, OF that] by (simp add: getMaxOffset_def)
  ultimately show ?thesis by blast
qed

theorem getMaxOffset_spec_witness:
  "scenarioIndex \<noteq> []
   \<and> distinct (map (\<lambda>j. fst (scenarioItems ! j)) [0..<length scenarioItems])
   \<and> totalContentHeight scenarioIndex = 125
   \<and> getMaxOffset 60 scenarioIndex = 65
   \<and> getMaxOffset 200 scenarioIndex = 0"
proof -
  have d: "distinct (map (\<lambda>j. fst (scenarioItems ! j)) [0..<length scenarioItems])"
    by simp
  have n: "scenarioIndex \<noteq> []"
    by (simp add: getNormalizedItems_def)
  have s: "(\<Sum>k<length scenarioItems. snd (scenarioItems ! k)) = 125"
    by simp
  note w = getMaxOffset_spec [where idx = scenarioIndex and getId = "\<lambda>x i. fst x"
      and items = scenarioItems and getHeight = "\<lambda>x i. snd x"]
  from w [of 60] d
  have a: "totalContentHeight scenarioIndex = (\<Sum>k<length scenarioItems. snd (scenarioItems ! k))"
    and b: "getMaxOffset 60 scenarioIndex = max 0 (totalContentHeight scenarioIndex - 60)"
    by blast+
  from w [of 200]
  have c: "getMaxOffset 200 scenarioIndex = max 0 (totalContentHeight scenarioIndex - 200)"
    by blast
  have t: "totalContentHeight scenarioIndex = 125"
    unfolding a by (rule s)
  have "getMaxOffset 60 scenarioIndex = 65" and "getMaxOffset 200 scenarioIndex = 0"
    unfolding b c t by simp_all
  with n d t show ?thesis by blast
qed

section \<open>Requests that start nothing\<close>

text \<open>
  C9. A \<open>scrollToId\<close> whose identifier is not in the normalised index changes nothing: the
  animation state, the pending frames and the calls made so far are what they were, and
  the effect has no failing branch.
\<close>

theorem missing_item_ignored:
  assumes "map_of normalizedItems i = None"
  shows "scrollToIdEffect normalizedItems (Some i) now st = st
     \<and> run p normalizedItems [ScrollToId (Some i) now] st = st"
  using assms by (simp add: scrollToIdEffect_def)

theorem missing_item_ignored_witness:
  "map_of scenarioIndex ''z'' = None
   \<and> scrollToIdEffect scenarioIndex (Some ''z'') 1000 mounted = mounted
   \<and> run scenarioProps scenarioIndex [ScrollToId (Some ''z'') 1000] mounted = mounted"
proof -
  have h: "map_of scenarioIndex ''z'' = None"
    by (simp add: getNormalizedItems_def)
  from h missing_item_ignored [OF h, of 1000 mounted scenarioProps] show ?thesis
    by blast
qed

text \<open>
  Events other than a \<open>scrollToId\<close> effect leave an instance without a pending frame as
  it is in this respect, and make no call to the setter.
\<close>

lemma step_quiet:
  assumes "\<not> isScrollToId e" and "pendingFrames st = 0"
  shows "pendingFrames (step p idx e st) = 0 \<and> scrollToCalls (step p idx e st) = scrollToCalls st"
  using assms by (cases e) (simp_all add: runFrame_idle onScrollCB_def Let_def)

lemma run_quiet:
  assumes "\<forall>e \<in> set es. \<not> isScrollToId e" and "pendingFrames st = 0"
  shows "pendingFrames (run p idx es st) = 0 \<and> scrollToCalls (run p idx es st) = scrollToCalls st"
  using assms
proof (induction es arbitrary: st)
  case Nil
  then show ?case by simp
next
  case (Cons e es)
  have "\<not> isScrollToId e" using Cons.prems(1) by simp
  from step_quiet [OF this Cons.prems(2), of p idx]
  have a: "pendingFrames (step p idx e st) = 0"
    and b: "scrollToCalls (step p idx e st) = scrollToCalls st"
    by simp_all
  have "\<forall>e \<in> set es. \<not> isScrollToId e" using Cons.prems(1) by simp
  from Cons.IH [OF this a] b show ?case by simp
qed

text \<open>
  C10. A fresh instance has \<open>scrollOffsetFinal = 0\<close>, and the guard compares the requested
  \<open>offsetTop\<close> with it: in any state with \<open>scrollOffsetFinal = 0\<close>, a request for an item at
  \<open>offsetTop\<close> 0 starts nothing. So an instance that has only seen scroll events, list
  mounts and frame ticks ignores a \<open>scrollToId\<close> for such an item: no frame is requested
  and the setter is not called. The first item of a list with unique identifiers is such
  an item.
\<close>

theorem first_item_never_scrolled_to:
  "scrollOffsetFinal initial = 0
   \<and> (scrollOffsetFinal st = 0 \<and> offsetTop it = 0 \<longrightarrow> startScrollAnimation now it st = st)
   \<and> ((\<forall>e \<in> set es. \<not> isScrollToId e) \<and> map_of idx i = Some it \<and> offsetTop it = 0 \<longrightarrow>
        run p idx (es @ [ScrollToId (Some i) now]) initial = run p idx es initial
      \<and> pendingFrames (run p idx (es @ [ScrollToId (Some i) now]) initial) = 0
      \<and> scrollToCalls (run p idx (es @ [ScrollToId (Some i) now]) initial) = [])
   \<and> (distinct (map (\<lambda>j. getId (items ! j) j) [0..<length items]) \<and> items \<noteq> [] \<longrightarrow>
        (\<exists>e. map_of (getNormalizedItems items getId getHeight) (getId (items ! 0) 0) = Some e
           \<and> offsetTop e = 0))"
proof -
  have fresh: "scrollOffsetFinal initial = 0"
    by (simp add: initial_def)
  have guard: "scrollOffsetFinal st = 0 \<and> offsetTop it = 0 \<longrightarrow> startScrollAnimation now it st = st"
    by (simp add: startScrollAnimation_guard)
  have never: "run p idx (es @ [ScrollToId (Some i) now]) initial = run p idx es initial
      \<and> pendingFrames (run p idx (es @ [ScrollToId (Some i) now]) initial) = 0
      \<and> scrollToCalls (run p idx (es @ [ScrollToId (Some i) now]) initial) = []"
    if h: "(\<forall>e \<in> set es. \<not> isScrollToId e) \<and> map_of idx i = Some it \<and> offsetTop it = 0"
  proof -
    let ?st = "run p idx es initial"
    have "scrollOffsetFinal ?st = scrollOffsetFinal initial"
      using h by (intro run_final) simp
    then have "scrollOffsetFinal ?st = offsetTop it"
      using h fresh by simp
    then have "startScrollAnimation now it ?st = ?st"
      by (simp add: startScrollAnimation_guard)
    then have same: "run p idx (es @ [ScrollToId (Some i) now]) initial = ?st"
      using h by (simp add: run_append scrollToIdEffect_def)
    have "pendingFrames initial = 0" "scrollToCalls initial = []"
      by (simp_all add: initial_def)
    with run_quiet [of es initial p idx] h
    have "pendingFrames ?st = 0 \<and> scrollToCalls ?st = []"
      by simp
    with same show ?thesis by simp
  qed
  have first: "\<exists>e. map_of (getNormalizedItems items getId getHeight) (getId (items ! 0) 0) = Some e
           \<and> offsetTop e = 0"
    if h: "distinct (map (\<lambda>j. getId (items ! j) j) [0..<length items]) \<and> items \<noteq> []"
  proof -
    have d: "distinct (map (\<lambda>j. getId (items ! j) j) [0..<length items])"
      and "0 < length items"
      using h by simp_all
    from getNormalizedItems_lookup [where getId = getId and items = items
        and getHeight = getHeight, OF this]
    show ?thesis by simp
  qed
  from fresh guard never first show ?thesis by blast
qed

theorem first_item_never_scrolled_to_witness:
  "map_of scenarioIndex ''a'' = Some \<lparr>item = (''a'', 20), index = 0, height = 20, offsetTop = 0\<rparr>
   \<and> scrollOffsetFinal mounted = 0
   \<and> startScrollAnimation 1000 \<lparr>item = (''a'', 20::real), index = 0, height = 20, offsetTop = 0\<rparr>
       mounted = mounted
   \<and> run scenarioProps scenarioIndex
       [ListRef True, Scroll Forward 30 False, ScrollToId (Some ''a'') 1000] initial
     = run scenarioProps scenarioIndex [ListRef True, Scroll Forward 30 False] initial
   \<and> pendingFrames
       (run scenarioProps scenarioIndex
          [ListRef True, Scroll Forward 30 False, ScrollToId (Some ''a'') 1000] initial) = 0
   \<and> scrollToCalls
       (run scenarioProps scenarioIndex
          [ListRef True, Scroll Forward 30 False, ScrollToId (Some ''a'') 1000] initial) = []
   \<and> distinct (map (\<lambda>j. fst (scenarioItems ! j)) [0..<length scenarioItems])
   \<and> scenarioItems \<noteq> []
   \<and> (\<exists>e. map_of scenarioIndex (fst (scenarioItems ! 0)) = Some e \<and> offsetTop e = 0)"
proof -
  let ?a = "\<lparr>item = (''a'', 20::real), index = 0, height = 20, offsetTop = 0\<rparr>"
  let ?es = "[ListRef True, Scroll Forward 30 False]"
  have m: "map_of scenarioIndex ''a'' = Some ?a"
    by (simp add: getNormalizedItems_def)
  have h: "\<forall>e \<in> set ?es. \<not> isScrollToId e" "offsetTop ?a = 0"
    by simp_all
  have f: "scrollOffsetFinal mounted = 0"
    by (simp add: initial_def)
  have d: "distinct (map (\<lambda>j. fst (scenarioItems ! j)) [0..<length scenarioItems])"
      "scenarioItems \<noteq> []"
    by simp_all
  have l: "?es @ [ScrollToId (Some ''a'') 1000] =
      [ListRef True, Scroll Forward 30 False, ScrollToId (Some ''a'') 1000]"
    by simp
  note w = first_item_never_scrolled_to [where es = ?es and idx = scenarioIndex and i = "''a''"
      and it = ?a and p = scenarioProps and now = 1000 and st = mounted
      and getId = "\<lambda>x i. fst x" and items = scenarioItems and getHeight = "\<lambda>x i. snd x"]
  from w f h(2) have g: "startScrollAnimation 1000 ?a mounted = mounted"
    by blast
  from w h m
  have "run scenarioProps scenarioIndex (?es @ [ScrollToId (Some ''a'') 1000]) initial
        = run scenarioProps scenarioIndex ?es initial
      \<and> pendingFrames (run scenarioProps scenarioIndex (?es @ [ScrollToId (Some ''a'') 1000]) initial) = 0
      \<and> scrollToCalls (run scenarioProps scenarioIndex (?es @ [ScrollToId (Some ''a'') 1000]) initial) = []"
    by blast
  then have r: "run scenarioProps scenarioIndex
        [ListRef True, Scroll Forward 30 False, ScrollToId (Some ''a'') 1000] initial
        = run scenarioProps scenarioIndex ?es initial
      \<and> pendingFrames (run scenarioProps scenarioIndex
        [ListRef True, Scroll Forward 30 False, ScrollToId (Some ''a'') 1000] initial) = 0
      \<and> scrollToCalls (run scenarioProps scenarioIndex
        [ListRef True, Scroll Forward 30 False, ScrollToId (Some ''a'') 1000] initial) = []"
    unfolding l .
  from w d have e: "\<exists>e. map_of scenarioIndex (fst (scenarioItems ! 0)) = Some e \<and> offsetTop e = 0"
    by blast
  from m f g r d e show ?thesis by blast
qed

end
